theory Spec2Isabelle
  imports Complex_Main
begin

section \<open>Python values\<close>

text \<open>
  Tool arguments, tool results and LLM replies are JSON-shaped Python values. A dict keeps
  its insertion order, so it is an association list; a key is looked up with \<open>map_of\<close>.
  A finite float is represented by the rational it denotes (only its truth value is ever
  inspected by the code below).
\<close>

datatype pyval =
    PNone
  | PBool bool
  | PInt int
  | PFloat rat
  | PStr string
  | PList "pyval list"
  | PDict "(string \<times> pyval) list"

type_synonym pydict = "(string \<times> pyval) list"

text \<open>Python truthiness, as tested by \<^verbatim>\<open>not x\<close> and \<^verbatim>\<open>if x\<close>.\<close>

fun truthy :: "pyval \<Rightarrow> bool" where
  "truthy PNone = False"
| "truthy (PBool b) = b"
| "truthy (PInt i) = (i \<noteq> 0)"
| "truthy (PFloat r) = (r \<noteq> 0)"
| "truthy (PStr s) = (s \<noteq> [])"
| "truthy (PList xs) = (xs \<noteq> [])"
| "truthy (PDict d) = (d \<noteq> [])"

text \<open>\<^verbatim>\<open>k in d\<close>, \<^verbatim>\<open>d.get(k)\<close> (Python's \<^verbatim>\<open>None\<close> when the key is missing) and
  \<^verbatim>\<open>d.get(k, default)\<close>.\<close>

definition has_key :: "pydict \<Rightarrow> string \<Rightarrow> bool" where
  "has_key d k = (map_of d k \<noteq> None)"

definition py_get_default :: "pydict \<Rightarrow> string \<Rightarrow> pyval \<Rightarrow> pyval" where
  "py_get_default d k dflt = (case map_of d k of None \<Rightarrow> dflt | Some v \<Rightarrow> v)"

definition py_get :: "pydict \<Rightarrow> string \<Rightarrow> pyval" where
  "py_get d k = py_get_default d k PNone"

text \<open>\<^verbatim>\<open>d[k]\<close>. Every subscript in the modelled code stands under a successful
  \<^verbatim>\<open>k in d\<close> test, so the \<^verbatim>\<open>KeyError\<close> branch is never taken there.\<close>

definition subscript :: "pydict \<Rightarrow> string \<Rightarrow> pyval" where
  "subscript d k = (case map_of d k of Some v \<Rightarrow> v | None \<Rightarrow> PNone)"

section \<open>Strings\<close>

text \<open>\<^verbatim>\<open>s.startswith(p)\<close>, \<^verbatim>\<open>p in s\<close> and \<^verbatim>\<open>s.lower()\<close> on ASCII text.\<close>

fun startswith :: "string \<Rightarrow> string \<Rightarrow> bool" where
  "startswith s [] = True"
| "startswith [] (p # ps) = False"
| "startswith (c # cs) (p # ps) = (c = p \<and> startswith cs ps)"

fun str_in :: "string \<Rightarrow> string \<Rightarrow> bool" where
  "str_in p [] = (p = [])"
| "str_in p (c # cs) = (startswith (c # cs) p \<or> str_in p cs)"

definition lower_char :: "char \<Rightarrow> char" where
  "lower_char c =
     (case map_of (zip ''ABCDEFGHIJKLMNOPQRSTUVWXYZ'' ''abcdefghijklmnopqrstuvwxyz'') c of
        Some l \<Rightarrow> l
      | None \<Rightarrow> c)"

definition lower :: "string \<Rightarrow> string" where
  "lower s = map lower_char s"

text \<open>A string between single quotes: what \<^verbatim>\<open>f"'{s}'"\<close> gives, and the \<^verbatim>\<open>repr\<close> of a
  string that needs no escapes (every argument name of the catalogues is one). With it,
  \<^verbatim>\<open>str\<close> of a list of such strings, as an f-string renders \<^verbatim>\<open>{missing_args}\<close>.\<close>

definition quoted :: "string \<Rightarrow> string" where
  "quoted s = [CHR 0x27] @ s @ [CHR 0x27]"

fun join :: "string \<Rightarrow> string list \<Rightarrow> string" where
  "join sep [] = []"
| "join sep [x] = x"
| "join sep (x # y # ys) = x @ sep @ join sep (y # ys)"

definition str_of_str_list :: "string list \<Rightarrow> string" where
  "str_of_str_list xs = ''['' @ join '', '' (map quoted xs) @ '']''"

section \<open>Tool catalogues\<close>

text \<open>An entry of \<^verbatim>\<open>TOOL_DESCRIPTIONS\<close>: a description, the argument names with their
  human-readable descriptions (in declaration order), and what the tool returns.\<close>

record tool_desc =
  td_description :: string
  td_args :: "(string \<times> string) list"
  td_returns :: string

text \<open>\<^verbatim>\<open>TOOL_DESCRIPTIONS\<close> of \<^verbatim>\<open>src/activities/tool_registry_activities.py\<close>.\<close>

definition TOOL_DESCRIPTIONS :: "(string \<times> tool_desc) list" where
  "TOOL_DESCRIPTIONS =
    [(''arxiv_search_papers'',
      \<lparr>td_description = ''Enhanced arXiv paper search with local caching and advanced filtering'',
       td_args =
        [(''query'',
          ''Search query string''),
         (''max_results'',
          ''Optional: Maximum papers to return (default: 10)''),
         (''category'',
          ''Optional: arXiv category filter (e.g., 'cs.AI', 'cs.LG')''),
         (''date_from'',
          ''Optional: Start date filter (YYYY-MM-DD)''),
         (''date_to'',
          ''Optional: End date filter (YYYY-MM-DD)''),
         (''sort_by'',
          ''Optional: Sort criteria ('relevance', 'submitted', 'updated')'')],
       td_returns = ''List of papers with metadata and local storage status''\<rparr>),
     (''arxiv_download_paper'',
      \<lparr>td_description = ''Download and locally store an arXiv paper with metadata'',
       td_args =
        [(''paper_id'',
          ''arXiv paper ID (e.g., '1706.03762')''),
         (''force_download'',
          ''Optional: Force re-download if already exists (default: false)'')],
       td_returns = ''Download status and local file information''\<rparr>),
     (''arxiv_list_papers'',
      \<lparr>td_description = ''List all locally downloaded papers with filtering options'',
       td_args =
        [(''category_filter'',
          ''Optional: Category to filter by''),
         (''date_from'',
          ''Optional: Start date filter for download date''),
         (''limit'',
          ''Optional: Maximum papers to return (default: 100)'')],
       td_returns = ''List of downloaded papers with metadata and local paths''\<rparr>),
     (''arxiv_read_paper'',
      \<lparr>td_description = ''Read content of a locally downloaded paper'',
       td_args =
        [(''paper_id'',
          ''arXiv paper ID''),
         (''include_metadata'',
          ''Optional: Include full metadata (default: true)''),
         (''extract_sections'',
          ''Optional: Extract paper sections (default: false)'')],
       td_returns = ''Paper content, metadata, and extracted sections if requested''\<rparr>),
     (''arxiv_get_metadata'',
      \<lparr>td_description = ''Get enhanced metadata for a paper (local or remote)'',
       td_args =
        [(''paper_id'',
          ''arXiv paper ID''),
         (''include_citations'',
          ''Optional: Include citation analysis (default: false)''),
         (''force_refresh'',
          ''Optional: Force refresh from arXiv API (default: false)'')],
       td_returns = ''Enhanced paper metadata with local storage information''\<rparr>),
     (''arxiv_deep_analysis'',
      \<lparr>td_description = ''Get comprehensive deep analysis of a paper using MCP server'',
       td_args =
        [(''paper_id'',
          ''arXiv paper ID'')],
       td_returns = ''Comprehensive analysis including executive summary, methodology, results, and implications''\<rparr>),
     (''extract_citations'',
      \<lparr>td_description = ''Extract citations from paper text or PDF'',
       td_args =
        [(''paper_text'',
          ''Optional: Full text of the paper (provide either this or paper_url)''),
         (''paper_url'',
          ''Optional: URL to paper PDF (provide either this or paper_text)''),
         (''format'',
          ''Optional: Citation format to expect (default: mixed)'')],
       td_returns = ''List of extracted citations with parsed metadata''\<rparr>),
     (''analyze_citation_network'',
      \<lparr>td_description = ''Analyze citation relationships between papers'',
       td_args =
        [(''paper_ids'',
          ''List of paper IDs to analyze (required)''),
         (''depth'',
          ''Optional: Citation depth to explore (default: 2)'')],
       td_returns = ''Citation network graph with relationships and metrics''\<rparr>),
     (''process_pdf'',
      \<lparr>td_description = ''Extract and process text content from PDF'',
       td_args =
        [(''pdf_url'',
          ''URL to PDF file (required)''),
         (''sections'',
          ''Optional: List of sections to extract. If not provided, extracts all content'')],
       td_returns = ''Processed text content with section breakdown''\<rparr>),
     (''extract_sections'',
      \<lparr>td_description = ''Extract specific sections from academic paper'',
       td_args =
        [(''paper_text'',
          ''Full paper text (required)''),
         (''sections'',
          ''Optional: List of section names (e.g., ['abstract', 'introduction', 'conclusion']). If not provided, extracts all major sections'')],
       td_returns = ''Dictionary mapping section names to content''\<rparr>),
     (''find_similar_papers'',
      \<lparr>td_description = ''Find papers similar to given paper using semantic search'',
       td_args =
        [(''reference_paper'',
          ''Paper text or abstract for similarity comparison (required)''),
         (''search_corpus'',
          ''Optional: Specific corpus to search in. If not provided, uses default academic corpus'')],
       td_returns = ''List of similar papers with similarity scores''\<rparr>),
     (''calculate_similarity'',
      \<lparr>td_description = ''Calculate semantic similarity between two papers'',
       td_args =
        [(''paper1_text'',
          ''Text content of first paper (required)''),
         (''paper2_text'',
          ''Text content of second paper (required)'')],
       td_returns = ''Similarity score and detailed comparison metrics''\<rparr>)]"

text \<open>\<^verbatim>\<open>TOOL_DESCRIPTIONS\<close> of \<^verbatim>\<open>src/tools/registry.py\<close>; the argument texts differ from
  the table above.\<close>

definition registry_TOOL_DESCRIPTIONS :: "(string \<times> tool_desc) list" where
  "registry_TOOL_DESCRIPTIONS =
    [(''arxiv_search_papers'',
      \<lparr>td_description = ''Enhanced arXiv paper search with local caching and advanced filtering'',
       td_args =
        [(''query'',
          ''Search query string''),
         (''max_results'',
          ''Optional: Maximum papers to return (default: 10)''),
         (''category'',
          ''Optional: arXiv category filter (e.g., 'cs.AI', 'cs.LG')''),
         (''date_from'',
          ''Optional: Start date filter (YYYY-MM-DD)''),
         (''date_to'',
          ''Optional: End date filter (YYYY-MM-DD)''),
         (''sort_by'',
          ''Optional: Sort criteria ('relevance', 'submitted', 'updated')'')],
       td_returns = ''List of papers with metadata and local storage status''\<rparr>),
     (''arxiv_download_paper'',
      \<lparr>td_description = ''Download and locally store an arXiv paper with metadata'',
       td_args =
        [(''paper_id'',
          ''arXiv paper ID (e.g., '1706.03762')''),
         (''force_download'',
          ''Optional: Force re-download if already exists (default: false)'')],
       td_returns = ''Download status and local file information''\<rparr>),
     (''arxiv_list_papers'',
      \<lparr>td_description = ''List all locally downloaded papers with filtering options'',
       td_args =
        [(''category_filter'',
          ''Optional: Category to filter by''),
         (''date_from'',
          ''Optional: Start date filter for download date''),
         (''limit'',
          ''Optional: Maximum papers to return (default: 100)'')],
       td_returns = ''List of downloaded papers with metadata and local paths''\<rparr>),
     (''arxiv_read_paper'',
      \<lparr>td_description = ''Read content of a locally downloaded paper'',
       td_args =
        [(''paper_id'',
          ''arXiv paper ID''),
         (''include_metadata'',
          ''Optional: Include full metadata (default: true)''),
         (''extract_sections'',
          ''Optional: Extract paper sections (default: false)'')],
       td_returns = ''Paper content, metadata, and extracted sections if requested''\<rparr>),
     (''arxiv_get_metadata'',
      \<lparr>td_description = ''Get enhanced metadata for a paper (local or remote)'',
       td_args =
        [(''paper_id'',
          ''arXiv paper ID''),
         (''include_citations'',
          ''Optional: Include citation analysis (default: false)''),
         (''force_refresh'',
          ''Optional: Force refresh from arXiv API (default: false)'')],
       td_returns = ''Enhanced paper metadata with local storage information''\<rparr>),
     (''arxiv_deep_analysis'',
      \<lparr>td_description = ''Get comprehensive deep analysis of a paper using MCP server'',
       td_args =
        [(''paper_id'',
          ''arXiv paper ID'')],
       td_returns = ''Comprehensive analysis including executive summary, methodology, results, and implications''\<rparr>),
     (''extract_citations'',
      \<lparr>td_description = ''Extract citations from paper text or PDF'',
       td_args =
        [(''paper_text'',
          ''Full text of the paper''),
         (''paper_url'',
          ''Alternative: URL to paper PDF'')],
       td_returns = ''List of extracted citations with parsed metadata''\<rparr>),
     (''analyze_citation_network'',
      \<lparr>td_description = ''Analyze citation relationships between papers'',
       td_args =
        [(''paper_ids'',
          ''List of paper IDs to analyze''),
         (''depth'',
          ''Citation depth to explore (default: 2)'')],
       td_returns = ''Citation network graph with relationships and metrics''\<rparr>),
     (''process_pdf'',
      \<lparr>td_description = ''Extract and process text content from PDF'',
       td_args =
        [(''pdf_url'',
          ''URL to PDF file''),
         (''sections'',
          ''Optional list of sections to extract'')],
       td_returns = ''Processed text content with section breakdown''\<rparr>),
     (''extract_sections'',
      \<lparr>td_description = ''Extract specific sections from academic paper'',
       td_args =
        [(''paper_text'',
          ''Full paper text''),
         (''sections'',
          ''List of section names (e.g., ['abstract', 'introduction', 'conclusion'])'')],
       td_returns = ''Dictionary mapping section names to content''\<rparr>),
     (''find_similar_papers'',
      \<lparr>td_description = ''Find papers similar to given paper using semantic search'',
       td_args =
        [(''reference_paper'',
          ''Paper text or abstract for similarity comparison''),
         (''search_corpus'',
          ''Optional: specific corpus to search in'')],
       td_returns = ''List of similar papers with similarity scores''\<rparr>),
     (''calculate_similarity'',
      \<lparr>td_description = ''Calculate semantic similarity between two papers'',
       td_args =
        [(''paper1_text'',
          ''Text content of first paper''),
         (''paper2_text'',
          ''Text content of second paper'')],
       td_returns = ''Similarity score and detailed comparison metrics''\<rparr>)]"

text \<open>The keys of \<^verbatim>\<open>TOOL_REGISTRY\<close> of \<^verbatim>\<open>src/tools/registry.py\<close>, in declaration order
  (the handlers are the imported tool functions).\<close>

definition TOOL_REGISTRY :: "string list" where
  "TOOL_REGISTRY =
    [''arxiv_search_papers'', ''arxiv_download_paper'', ''arxiv_list_papers'',
     ''arxiv_read_paper'', ''arxiv_get_metadata'', ''arxiv_deep_analysis'',
     ''extract_citations'', ''analyze_citation_network'', ''process_pdf'',
     ''extract_sections'', ''find_similar_papers'', ''calculate_similarity'']"

text \<open>\<^verbatim>\<open>get_available_tools\<close> of the activities module.\<close>

definition get_available_tools :: "string list" where
  "get_available_tools = map fst TOOL_DESCRIPTIONS"

section \<open>Tool validation\<close>

text \<open>The dict a validator returns: \<^verbatim>\<open>valid\<close> is always there, the other keys depend on
  the branch taken.\<close>

record validation =
  valid :: bool
  reason :: "string option"
  available_tools :: "string list option"
  required_args :: "(string \<times> string) list option"
  v_tool_name :: "string option"
  validated_args :: "pydict option"

definition not_found_result :: "string \<Rightarrow> string list \<Rightarrow> validation" where
  "not_found_result tool_name names =
     \<lparr>valid = False,
      reason = Some (''Tool '' @ quoted tool_name @ '' not found in registry''),
      available_tools = Some names, required_args = None,
      v_tool_name = None, validated_args = None\<rparr>"

definition invalid_result :: "string \<Rightarrow> (string \<times> string) list \<Rightarrow> validation" where
  "invalid_result why req =
     \<lparr>valid = False, reason = Some why, available_tools = None, required_args = Some req,
      v_tool_name = None, validated_args = None\<rparr>"

definition valid_result :: "string \<Rightarrow> pydict \<Rightarrow> validation" where
  "valid_result tool_name tool_args =
     \<lparr>valid = True, reason = None, available_tools = None, required_args = None,
      v_tool_name = Some tool_name, validated_args = Some tool_args\<rparr>"

subsection \<open>The validator of the activities module (the one the workflow calls)\<close>

text \<open>An argument is optional when its description says so in one of three spellings.\<close>

definition is_optional :: "string \<Rightarrow> bool" where
  "is_optional arg_desc \<longleftrightarrow>
     str_in ''Optional:'' arg_desc \<or> str_in ''optional'' (lower arg_desc)
     \<or> startswith arg_desc ''Optional''"

definition missing_args :: "(string \<times> string) list \<Rightarrow> pydict \<Rightarrow> string list" where
  "missing_args arg_descs tool_args =
     map fst (filter (\<lambda>(arg_name, arg_desc). \<not> is_optional arg_desc \<and> \<not> has_key tool_args arg_name)
       arg_descs)"

definition validate_tool_usage :: "string \<Rightarrow> pydict \<Rightarrow> validation" where
  "validate_tool_usage tool_name tool_args =
     (case map_of TOOL_DESCRIPTIONS tool_name of
        None \<Rightarrow> not_found_result tool_name (map fst TOOL_DESCRIPTIONS)
      | Some tool_desc \<Rightarrow>
          let req = td_args tool_desc;
              missing = missing_args req tool_args
          in
          if tool_name = ''extract_citations'' then
            (if \<not> truthy (py_get tool_args ''paper_text'') \<and> \<not> truthy (py_get tool_args ''paper_url'')
             then invalid_result
                    (''extract_citations requires either 'paper_text' or '' @ quoted ''paper_url'') req
             else valid_result tool_name tool_args)
          else if tool_name = ''arxiv_search_papers'' then
            (if \<not> truthy (py_get tool_args ''query'')
             then invalid_result (tool_name @ '' requires 'query' parameter'') req
             else valid_result tool_name tool_args)
          else if tool_name \<in> set [''arxiv_download_paper'', ''arxiv_read_paper'',
                                   ''arxiv_get_metadata'', ''arxiv_deep_analysis''] then
            (if \<not> truthy (py_get tool_args ''paper_id'')
             then invalid_result (tool_name @ '' requires 'paper_id' parameter'') req
             else valid_result tool_name tool_args)
          else if missing \<noteq> [] then
            invalid_result (''Missing required arguments: '' @ str_of_str_list missing) req
          else valid_result tool_name tool_args)"

subsection \<open>The validator of the registry module\<close>

text \<open>Here only the spelling \<^verbatim>\<open>Optional:\<close> marks an optional argument, and no tool has a
  rule of its own.\<close>

definition registry_missing_args :: "(string \<times> string) list \<Rightarrow> pydict \<Rightarrow> string list" where
  "registry_missing_args arg_descs tool_args =
     map fst (filter (\<lambda>(arg_name, arg_desc). \<not> str_in ''Optional:'' arg_desc \<and> \<not> has_key tool_args arg_name)
       arg_descs)"

definition registry_validate_tool_usage :: "string \<Rightarrow> pydict \<Rightarrow> validation" where
  "registry_validate_tool_usage tool_name tool_args =
     (if tool_name \<notin> set TOOL_REGISTRY then not_found_result tool_name TOOL_REGISTRY
      else case map_of registry_TOOL_DESCRIPTIONS tool_name of
        None \<Rightarrow>
          \<lparr>valid = False,
           reason = Some (''Tool '' @ quoted tool_name @ '' missing description metadata''),
           available_tools = None, required_args = None,
           v_tool_name = None, validated_args = None\<rparr>
      | Some tool_desc \<Rightarrow>
          let req = td_args tool_desc;
              missing = registry_missing_args req tool_args
          in
          if missing \<noteq> [] then
            invalid_result (''Missing required arguments: '' @ str_of_str_list missing) req
          else valid_result tool_name tool_args)"

section \<open>Exceptions and dynamic operations\<close>

text \<open>A raised Python exception: its class name, its \<^verbatim>\<open>str()\<close>, and whether the class
  derives from \<^verbatim>\<open>Exception\<close> (an \<^verbatim>\<open>except Exception\<close> clause catches exactly those;
  \<^verbatim>\<open>asyncio.CancelledError\<close>, \<^verbatim>\<open>KeyboardInterrupt\<close> and \<^verbatim>\<open>SystemExit\<close> derive from
  \<^verbatim>\<open>BaseException\<close> only). A computation that may raise returns \<open>pyexc + 'a\<close>.\<close>

datatype pyexc = PyExc (exc_class: string) (exc_str: string) (exc_is_Exception: bool)

fun py_type_name :: "pyval \<Rightarrow> string" where
  "py_type_name PNone = ''NoneType''"
| "py_type_name (PBool b) = ''bool''"
| "py_type_name (PInt i) = ''int''"
| "py_type_name (PFloat r) = ''float''"
| "py_type_name (PStr s) = ''str''"
| "py_type_name (PList xs) = ''list''"
| "py_type_name (PDict d) = ''dict''"

text \<open>Iterating a value, as \<^verbatim>\<open>list.extend\<close> and a generator expression do: a list gives
  its items, a string its characters, a dict its keys; anything else is a \<^verbatim>\<open>TypeError\<close>.\<close>

fun py_iter :: "pyval \<Rightarrow> pyexc + pyval list" where
  "py_iter (PList xs) = Inr xs"
| "py_iter (PStr s) = Inr (map (\<lambda>c. PStr [c]) s)"
| "py_iter (PDict d) = Inr (map (\<lambda>(k, v). PStr k) d)"
| "py_iter v = Inl (PyExc ''TypeError'' (quoted (py_type_name v) @ '' object is not iterable'') True)"

text \<open>\<^verbatim>\<open>len(v)\<close>.\<close>

fun py_len :: "pyval \<Rightarrow> pyexc + nat" where
  "py_len (PList xs) = Inr (length xs)"
| "py_len (PStr s) = Inr (length s)"
| "py_len (PDict d) = Inr (length d)"
| "py_len v = Inl (PyExc ''TypeError'' (''object of type '' @ quoted (py_type_name v) @ '' has no len()'') True)"

text \<open>\<^verbatim>\<open>v.get(k, default)\<close> on an arbitrary value: only a dict has the method.\<close>

fun py_get_method :: "pyval \<Rightarrow> string \<Rightarrow> pyval \<Rightarrow> pyexc + pyval" where
  "py_get_method (PDict d) k dflt = Inr (py_get_default d k dflt)"
| "py_get_method v k dflt =
     Inl (PyExc ''AttributeError''
            (quoted (py_type_name v) @ '' object has no attribute '' @ quoted ''get'') True)"

section \<open>Tool dispatch\<close>

text \<open>The tool functions that \<^verbatim>\<open>_get_tool_handler\<close> imports lazily. What they compute
  (network searches, PDF parsing, TF-IDF) is outside this development: a call to one of
  them is a parameter that returns a value or raises.\<close>

datatype tool_fn =
    Fn_arxiv_search_papers
  | Fn_arxiv_download_paper
  | Fn_arxiv_list_papers
  | Fn_arxiv_read_paper
  | Fn_arxiv_get_paper_metadata
  | Fn_arxiv_deep_analysis
  | Fn_extract_citations
  | Fn_analyze_citation_network
  | Fn_process_pdf_content
  | Fn_extract_paper_sections
  | Fn_find_similar_papers
  | Fn_calculate_paper_similarity

text \<open>\<^verbatim>\<open>_get_tool_handler\<close> (an Isabelle name cannot start with an underscore).\<close>

definition x_get_tool_handler :: "string \<Rightarrow> tool_fn option" where
  "x_get_tool_handler tool_name =
     (if tool_name = ''arxiv_search_papers'' then Some Fn_arxiv_search_papers
      else if tool_name = ''arxiv_download_paper'' then Some Fn_arxiv_download_paper
      else if tool_name = ''arxiv_list_papers'' then Some Fn_arxiv_list_papers
      else if tool_name = ''arxiv_read_paper'' then Some Fn_arxiv_read_paper
      else if tool_name = ''arxiv_get_metadata'' then Some Fn_arxiv_get_paper_metadata
      else if tool_name = ''arxiv_deep_analysis'' then Some Fn_arxiv_deep_analysis
      else if tool_name = ''extract_citations'' then Some Fn_extract_citations
      else if tool_name = ''analyze_citation_network'' then Some Fn_analyze_citation_network
      else if tool_name = ''process_pdf'' then Some Fn_process_pdf_content
      else if tool_name = ''extract_sections'' then Some Fn_extract_paper_sections
      else if tool_name = ''find_similar_papers'' then Some Fn_find_similar_papers
      else if tool_name = ''calculate_similarity'' then Some Fn_calculate_paper_similarity
      else None)"

text \<open>\<^verbatim>\<open>activity.info()\<close>, supplied by the workflow engine.\<close>

record activity_info =
  current_attempt_scheduled_time :: pyval
  attempt :: pyval

definition metadata :: "activity_info \<Rightarrow> pyval" where
  "metadata info =
     PDict [(''execution_time'', current_attempt_scheduled_time info), (''attempt'', attempt info)]"

text \<open>The body of the \<^verbatim>\<open>try\<close> block of \<^verbatim>\<open>dynamic_tool_activity\<close>: resolve the handler,
  raise \<^verbatim>\<open>ValueError\<close> when there is none, otherwise call it. A coroutine handler is
  awaited and a plain one runs in an executor; both give the handler's value or its
  exception.\<close>

definition dispatch_try :: "(tool_fn \<Rightarrow> pydict \<Rightarrow> pyexc + pyval) \<Rightarrow> string \<Rightarrow> pydict \<Rightarrow> pyexc + pyval" where
  "dispatch_try call tool_name tool_args =
     (case x_get_tool_handler tool_name of
        None \<Rightarrow> Inl (PyExc ''ValueError'' (''Tool '' @ quoted tool_name @ '' not found in registry'') True)
      | Some handler \<Rightarrow> call handler tool_args)"

text \<open>\<^verbatim>\<open>dynamic_tool_activity\<close>: the success envelope, or the failure envelope built by
  \<^verbatim>\<open>except Exception as e\<close>; an exception that clause does not catch leaves the
  activity.\<close>

definition dynamic_tool_activity ::
  "(tool_fn \<Rightarrow> pydict \<Rightarrow> pyexc + pyval) \<Rightarrow> activity_info \<Rightarrow> string \<Rightarrow> pydict \<Rightarrow> pyexc + pydict" where
  "dynamic_tool_activity call info tool_name tool_args =
     (case dispatch_try call tool_name tool_args of
        Inr r \<Rightarrow>
          Inr [(''success'', PBool True), (''tool_name'', PStr tool_name), (''result'', r),
               (''metadata'', metadata info)]
      | Inl e \<Rightarrow>
          if exc_is_Exception e then
            Inr [(''success'', PBool False), (''tool_name'', PStr tool_name),
                 (''error'', PStr (exc_str e)), (''error_type'', PStr (exc_class e)),
                 (''metadata'', metadata info)]
          else Inl e)"

section \<open>The research workflow: state\<close>

text \<open>The values of \<^verbatim>\<open>research_context["status"]\<close>: \<^verbatim>\<open>"initializing"\<close>,
  \<^verbatim>\<open>"planning_complete"\<close>, \<^verbatim>\<open>f"iteration_{i}"\<close>, \<^verbatim>\<open>"summarizing"\<close>, \<^verbatim>\<open>"completed"\<close> and
  \<^verbatim>\<open>"failed"\<close>.\<close>

datatype status = Initializing | PlanningComplete | Iteration nat | Summarizing | Completed | Failed

text \<open>An entry of \<^verbatim>\<open>research_context["tool_results"]\<close>.\<close>

record tool_result_entry =
  tool :: string
  result :: pydict
  timestamp :: pyval

text \<open>The dict \<^verbatim>\<open>self.research_context\<close>. A key that the code creates on demand is an
  option: \<open>None\<close> while the key is not in the dict.\<close>

record research_context =
  query :: string
  user_id :: string
  document_id :: "string option"
  iteration :: nat
  status :: status
  plan :: "pyval option"
  papers_count :: "nat option"
  papers_downloaded :: "nat option"
  downloaded_papers :: "pyval list option"
  read_papers :: "pyval list option"
  extracted_content :: "pyval list option"
  citations :: "pyval list option"
  citation_network :: "pyval option"
  analysis_count :: "nat option"
  similar_papers :: "pyval list option"
  similarity_scores :: "pyval list option"
  tool_results :: "tool_result_entry list option"
  summary :: "pyval option"
  error :: "string option"

text \<open>What an observer of the run sees, in order: every value written to \<^verbatim>\<open>status\<close> and
  every \<^verbatim>\<open>workflow.execute_activity\<close> call with the loop iteration it was issued in
  (\<open>0\<close> outside the loop). The workflow engine keeps such a history; the program never
  reads it.\<close>

datatype activity =
    Act_llm_plan_research
  | Act_get_available_tools
  | Act_llm_analyze
  | Act_validate_tool_usage
  | Act_dynamic_tool_activity
  | Act_llm_analyze_summarize

datatype event = StatusSet status | ActivityCall activity nat

text \<open>The workflow object: the fields set by \<^verbatim>\<open>__init__\<close>, and the history. The signal
  \<^verbatim>\<open>update_research_focus\<close> writes a context key of its own and the query
  \<^verbatim>\<open>get_current_status\<close> only reads; neither takes part in what follows.\<close>

record ResearchWorkflow =
  research_context :: research_context
  discovered_papers :: "pyval list"
  analysis_results :: "pyval list"
  max_iterations :: nat
  trace :: "event list"

text \<open>The context as \<^verbatim>\<open>run\<close> initialises it.\<close>

definition initial_context :: "string \<Rightarrow> string \<Rightarrow> string option \<Rightarrow> research_context" where
  "initial_context research_query uid doc =
     \<lparr>query = research_query, user_id = uid, document_id = doc, iteration = 0,
      status = Initializing, plan = None, papers_count = None, papers_downloaded = None,
      downloaded_papers = None, read_papers = None, extracted_content = None,
      citations = None, citation_network = None, analysis_count = None,
      similar_papers = None, similarity_scores = None, tool_results = None,
      summary = None, error = None\<rparr>"

text \<open>\<^verbatim>\<open>__init__\<close>. Its empty \<^verbatim>\<open>research_context\<close> is replaced by \<^verbatim>\<open>run\<close> before anything
  reads it; the record needs some value there.\<close>

definition init :: ResearchWorkflow where
  "init = \<lparr>research_context = initial_context [] [] None, discovered_papers = [],
           analysis_results = [], max_iterations = 10, trace = []\<rparr>"

text \<open>Length of an accumulator that may not have been created yet.\<close>

definition olist :: "'a list option \<Rightarrow> 'a list" where
  "olist x = (case x of None \<Rightarrow> [] | Some xs \<Rightarrow> xs)"

definition set_status :: "status \<Rightarrow> ResearchWorkflow \<Rightarrow> ResearchWorkflow" where
  "set_status st w =
     w\<lparr>research_context := (research_context w)\<lparr>status := st\<rparr>,
       trace := trace w @ [StatusSet st]\<rparr>"

section \<open>The research workflow: merging a tool result\<close>

text \<open>\<^verbatim>\<open>sum(1 for paper in papers if paper.get("is_downloaded", False))\<close>: the first paper
  without a \<^verbatim>\<open>get\<close> method raises.\<close>

fun count_downloaded :: "pyval list \<Rightarrow> pyexc + nat" where
  "count_downloaded [] = Inr 0"
| "count_downloaded (paper # papers) =
     (case py_get_method paper ''is_downloaded'' (PBool False) of
        Inl e \<Rightarrow> Inl e
      | Inr flag \<Rightarrow>
          (case count_downloaded papers of
             Inl e \<Rightarrow> Inl e
           | Inr n \<Rightarrow> Inr (if truthy flag then Suc n else n)))"

text \<open>\<^verbatim>\<open>len(content.get("sections", {}))\<close>.\<close>

definition sections_found :: "pyval \<Rightarrow> pyexc + nat" where
  "sections_found content =
     (case py_get_method content ''sections'' (PDict []) of
        Inl e \<Rightarrow> Inl e
      | Inr secs \<Rightarrow> py_len secs)"

text \<open>The branches of \<^verbatim>\<open>_update_context_with_results\<close>. Each returns the workflow object
  as the branch leaves it and the exception, if one was raised on the way (the object
  keeps what was written before the raise).\<close>

definition merge_search :: "ResearchWorkflow \<Rightarrow> pydict \<Rightarrow> string \<Rightarrow> ResearchWorkflow \<times> pyexc option" where
  "merge_search w tool_result tool_name =
     (case py_iter (subscript tool_result ''papers'') of
        Inl e \<Rightarrow> (w, Some e)
      | Inr papers \<Rightarrow>
          let w1 = w\<lparr>discovered_papers := discovered_papers w @ papers\<rparr>;
              w2 = w1\<lparr>research_context :=
                        (research_context w1)\<lparr>papers_count := Some (length (discovered_papers w1))\<rparr>\<rparr>
          in
          if tool_name = ''arxiv_search_papers'' then
            (case count_downloaded papers of
               Inl e \<Rightarrow> (w2, Some e)
             | Inr downloaded_count \<Rightarrow>
                 (w2\<lparr>research_context :=
                        (research_context w2)\<lparr>papers_downloaded := Some downloaded_count\<rparr>\<rparr>, None))
          else (w2, None))"

definition merge_download :: "ResearchWorkflow \<Rightarrow> pydict \<Rightarrow> ResearchWorkflow \<times> pyexc option" where
  "merge_download w tool_result =
     (let c = research_context w;
          c1 = (if downloaded_papers c = None then c\<lparr>downloaded_papers := Some []\<rparr> else c);
          c2 = (if has_key tool_result ''paper_id''
                then c1\<lparr>downloaded_papers :=
                          Some (olist (downloaded_papers c1) @ [subscript tool_result ''paper_id''])\<rparr>
                else c1)
      in (w\<lparr>research_context := c2\<rparr>, None))"

definition merge_read :: "ResearchWorkflow \<Rightarrow> pydict \<Rightarrow> ResearchWorkflow \<times> pyexc option" where
  "merge_read w tool_result =
     (let c = research_context w;
          c1 = (if read_papers c = None then c\<lparr>read_papers := Some []\<rparr> else c);
          c2 = (if has_key tool_result ''paper_id''
                then c1\<lparr>read_papers :=
                          Some (olist (read_papers c1) @ [subscript tool_result ''paper_id''])\<rparr>
                else c1)
      in
      if has_key tool_result ''content'' \<and> has_key tool_result ''paper_id'' then
        (let c3 = (if extracted_content c2 = None then c2\<lparr>extracted_content := Some []\<rparr> else c2)
         in case sections_found (subscript tool_result ''content'') of
              Inl e \<Rightarrow> (w\<lparr>research_context := c3\<rparr>, Some e)
            | Inr n \<Rightarrow>
                (w\<lparr>research_context :=
                      c3\<lparr>extracted_content :=
                           Some (olist (extracted_content c3) @
                                 [PDict [(''paper_id'', subscript tool_result ''paper_id''),
                                         (''sections_found'', PInt (int n))]])\<rparr>\<rparr>, None))
      else (w\<lparr>research_context := c2\<rparr>, None))"

definition merge_citations :: "ResearchWorkflow \<Rightarrow> pydict \<Rightarrow> ResearchWorkflow \<times> pyexc option" where
  "merge_citations w tool_result =
     (let c = research_context w;
          (c2, raised) =
            (if has_key tool_result ''citations'' then
               (let c1 = (if citations c = None then c\<lparr>citations := Some []\<rparr> else c)
                in case py_iter (subscript tool_result ''citations'') of
                     Inl e \<Rightarrow> (c1, Some e)
                   | Inr cs \<Rightarrow> (c1\<lparr>citations := Some (olist (citations c1) @ cs)\<rparr>, None))
             else (c, None))
      in
      if raised \<noteq> None then (w\<lparr>research_context := c2\<rparr>, raised)
      else if has_key tool_result ''network''
        then (w\<lparr>research_context := c2\<lparr>citation_network := Some (subscript tool_result ''network'')\<rparr>\<rparr>, None)
        else (w\<lparr>research_context := c2\<rparr>, None))"

definition merge_pdf :: "ResearchWorkflow \<Rightarrow> pydict \<Rightarrow> ResearchWorkflow \<times> pyexc option" where
  "merge_pdf w tool_result =
     (let w1 = w\<lparr>analysis_results := analysis_results w @ [subscript tool_result ''content'']\<rparr>
      in (w1\<lparr>research_context :=
                (research_context w1)\<lparr>analysis_count := Some (length (analysis_results w1))\<rparr>\<rparr>, None))"

definition merge_similarity :: "ResearchWorkflow \<Rightarrow> pydict \<Rightarrow> ResearchWorkflow \<times> pyexc option" where
  "merge_similarity w tool_result =
     (let c = research_context w;
          (c2, raised) =
            (if has_key tool_result ''similar_papers'' then
               (let c1 = (if similar_papers c = None then c\<lparr>similar_papers := Some []\<rparr> else c)
                in case py_iter (subscript tool_result ''similar_papers'') of
                     Inl e \<Rightarrow> (c1, Some e)
                   | Inr ps \<Rightarrow> (c1\<lparr>similar_papers := Some (olist (similar_papers c1) @ ps)\<rparr>, None))
             else (c, None))
      in
      if raised \<noteq> None then (w\<lparr>research_context := c2\<rparr>, raised)
      else if has_key tool_result ''similarity'' then
        (let c3 = (if similarity_scores c2 = None then c2\<lparr>similarity_scores := Some []\<rparr> else c2)
         in (w\<lparr>research_context :=
                  c3\<lparr>similarity_scores :=
                       Some (olist (similarity_scores c3) @ [subscript tool_result ''similarity''])\<rparr>\<rparr>,
             None))
      else (w\<lparr>research_context := c2\<rparr>, None))"

text \<open>The \<^verbatim>\<open>if\<close>/\<^verbatim>\<open>elif\<close> chain that selects the branch by tool name.\<close>

definition merge_category :: "ResearchWorkflow \<Rightarrow> pydict \<Rightarrow> string \<Rightarrow> ResearchWorkflow \<times> pyexc option" where
  "merge_category w tool_result tool_name =
     (if tool_name \<in> set [''arxiv_search_papers'', ''arxiv_search''] \<and> has_key tool_result ''papers''
        then merge_search w tool_result tool_name
      else if tool_name = ''arxiv_download_paper'' \<and> truthy (py_get tool_result ''success'')
        then merge_download w tool_result
      else if tool_name = ''arxiv_read_paper'' \<and> truthy (py_get tool_result ''success'')
        then merge_read w tool_result
      else if tool_name \<in> set [''extract_citations'', ''analyze_citation_network'']
        then merge_citations w tool_result
      else if tool_name \<in> set [''process_pdf'', ''extract_sections''] \<and> has_key tool_result ''content''
        then merge_pdf w tool_result
      else if tool_name \<in> set [''find_similar_papers'', ''calculate_similarity'']
        then merge_similarity w tool_result
      else (w, None))"

text \<open>\<^verbatim>\<open>_update_context_with_results\<close>; \<open>now\<close> is the value of \<^verbatim>\<open>workflow.now()\<close>.\<close>

definition update_context_with_results ::
  "ResearchWorkflow \<Rightarrow> pydict \<Rightarrow> string \<Rightarrow> pyval \<Rightarrow> ResearchWorkflow \<times> pyexc option" where
  "update_context_with_results w tool_result tool_name now =
     (case merge_category w tool_result tool_name of
        (w1, Some e) \<Rightarrow> (w1, Some e)
      | (w1, None) \<Rightarrow>
          let c = research_context w1;
              c1 = (if tool_results c = None then c\<lparr>tool_results := Some []\<rparr> else c)
          in (w1\<lparr>research_context :=
                    c1\<lparr>tool_results :=
                         Some (olist (tool_results c1) @
                               [\<lparr>tool = tool_name, result = tool_result, timestamp = now\<rparr>])\<rparr>\<rparr>,
              None))"

section \<open>The research workflow: the agent loop\<close>

text \<open>The reply of \<^verbatim>\<open>llm_analyze\<close> in its \<^verbatim>\<open>next_action\<close> mode, read through the three
  keys the loop looks at. The activity signatures declare \<^verbatim>\<open>tool_name: str\<close> and
  \<^verbatim>\<open>tool_args: Dict[str, Any]\<close>; a reply of another shape does not get past the engine's
  argument conversion and counts as a failed activity call below.\<close>

record proposal =
  p_action :: "pyval option"
  p_tool_name :: "string option"
  p_tool_args :: "pydict option"

text \<open>The collaborators of a run. The LLM activities catch their own exceptions and always
  return a value; a tool function returns or raises; the engine may fail any activity call
  (time-out, cancellation, exhausted retries), in which case \<^verbatim>\<open>execute_activity\<close> raises in
  the workflow. Calls are told apart by the loop iteration they are issued in.\<close>

record env =
  llm_plan_research :: "string \<Rightarrow> pyval"
  llm_analyze :: "research_context \<Rightarrow> string list \<Rightarrow> proposal"
  llm_analyze_summarize :: "research_context \<Rightarrow> pyval"
  tool_call :: "nat \<Rightarrow> tool_fn \<Rightarrow> pydict \<Rightarrow> pyexc + pyval"
  activity_info_at :: "nat \<Rightarrow> activity_info"
  workflow_now :: "nat \<Rightarrow> pyval"
  activity_fault :: "activity \<Rightarrow> nat \<Rightarrow> pyexc option"
  activity_error :: "pyexc \<Rightarrow> pyexc"

text \<open>\<^verbatim>\<open>await workflow.execute_activity(...)\<close>: the call is recorded; it raises when the
  engine fails it or when the activity itself raised (the engine then hands the workflow
  its own wrapping of that exception), and otherwise returns the activity's value.\<close>

definition execute_activity ::
  "env \<Rightarrow> activity \<Rightarrow> nat \<Rightarrow> (pyexc + 'a) \<Rightarrow> ResearchWorkflow
     \<Rightarrow> (pyexc \<times> ResearchWorkflow) + ('a \<times> ResearchWorkflow)" where
  "execute_activity e act i body w =
     (let w' = w\<lparr>trace := trace w @ [ActivityCall act i]\<rparr>
      in case activity_fault e act i of
           Some x \<Rightarrow> Inl (x, w')
         | None \<Rightarrow>
             (case body of
                Inl x \<Rightarrow> Inl (activity_error e x, w')
              | Inr r \<Rightarrow> Inr (r, w')))"

datatype flow = Continue | Break

text \<open>One pass through the body of \<^verbatim>\<open>for iteration in range(self.max_iterations)\<close>. The
  pause \<^verbatim>\<open>asyncio.sleep(1)\<close> at its end changes nothing.\<close>

definition loop_body ::
  "env \<Rightarrow> nat \<Rightarrow> ResearchWorkflow \<Rightarrow> (pyexc \<times> ResearchWorkflow) + (flow \<times> ResearchWorkflow)" where
  "loop_body e i w0 =
     (let w1 = set_status (Iteration i)
                 (w0\<lparr>research_context := (research_context w0)\<lparr>iteration := i\<rparr>\<rparr>)
      in
      case execute_activity e Act_get_available_tools i (Inr get_available_tools) w1 of
        Inl x \<Rightarrow> Inl x
      | Inr (tools, w2) \<Rightarrow>
      (case execute_activity e Act_llm_analyze i
              (Inr (llm_analyze e (research_context w2) tools)) w2 of
        Inl x \<Rightarrow> Inl x
      | Inr (next_action, w3) \<Rightarrow>
          if p_action next_action = Some (PStr ''complete'') then Inr (Break, w3)
          else if p_tool_name next_action \<noteq> None \<and> p_tool_args next_action \<noteq> None then
            (let tool_name = the (p_tool_name next_action);
                 tool_args = the (p_tool_args next_action)
             in
             case execute_activity e Act_validate_tool_usage i
                    (Inr (validate_tool_usage tool_name tool_args)) w3 of
               Inl x \<Rightarrow> Inl x
             | Inr (tool_validation, w4) \<Rightarrow>
                 if valid tool_validation then
                   (case execute_activity e Act_dynamic_tool_activity i
                           (dynamic_tool_activity (tool_call e i) (activity_info_at e i)
                              tool_name tool_args) w4 of
                      Inl x \<Rightarrow> Inl x
                    | Inr (tool_result, w5) \<Rightarrow>
                        (case update_context_with_results w5 tool_result tool_name (workflow_now e i) of
                           (w6, Some x) \<Rightarrow> Inl (x, w6)
                         | (w6, None) \<Rightarrow> Inr (Continue, w6)))
                 else Inr (Continue, w4))
          else Inr (Continue, w3)))"

text \<open>The \<^verbatim>\<open>for\<close> loop over the remaining values of \<^verbatim>\<open>range(self.max_iterations)\<close>.\<close>

fun for_loop ::
  "env \<Rightarrow> nat list \<Rightarrow> ResearchWorkflow \<Rightarrow> (pyexc \<times> ResearchWorkflow) + ResearchWorkflow" where
  "for_loop e [] w = Inr w"
| "for_loop e (i # rest) w =
     (case loop_body e i w of
        Inl x \<Rightarrow> Inl x
      | Inr (Break, w') \<Rightarrow> Inr w'
      | Inr (Continue, w') \<Rightarrow> for_loop e rest w')"

text \<open>The dict \<^verbatim>\<open>run\<close> returns.\<close>

record run_result =
  success :: bool
  r_error :: "string option"
  r_research_context :: research_context
  papers_discovered :: "nat option"
  r_analysis_count :: "nat option"
  final_summary :: "pyval option"

text \<open>Step 1 of the \<^verbatim>\<open>try\<close> block: plan the research and store the plan.\<close>

definition plan_step ::
  "env \<Rightarrow> ResearchWorkflow \<Rightarrow> string \<Rightarrow> (pyexc \<times> ResearchWorkflow) + ResearchWorkflow" where
  "plan_step e w0 research_query =
     (case execute_activity e Act_llm_plan_research 0 (Inr (llm_plan_research e research_query)) w0 of
        Inl x \<Rightarrow> Inl x
      | Inr (research_plan, w1) \<Rightarrow>
          Inr (set_status PlanningComplete
                 (w1\<lparr>research_context := (research_context w1)\<lparr>plan := Some research_plan\<rparr>\<rparr>)))"

text \<open>Step 3: ask for the final summary, store it, and build the returned dict.\<close>

definition summarize_step ::
  "env \<Rightarrow> ResearchWorkflow \<Rightarrow> (pyexc \<times> ResearchWorkflow) + (run_result \<times> ResearchWorkflow)" where
  "summarize_step e w3 =
     (let w4 = set_status Summarizing w3 in
      case execute_activity e Act_llm_analyze_summarize 0
             (Inr (llm_analyze_summarize e (research_context w4))) w4 of
        Inl x \<Rightarrow> Inl x
      | Inr (summ, w5) \<Rightarrow>
          (let w6 = set_status Completed w5;
               w7 = w6\<lparr>research_context := (research_context w6)\<lparr>summary := Some summ\<rparr>\<rparr>
           in Inr (\<lparr>success = True, r_error = None,
                    r_research_context = research_context w7,
                    papers_discovered = Some (length (discovered_papers w7)),
                    r_analysis_count = Some (length (analysis_results w7)),
                    final_summary = Some summ\<rparr>, w7)))"

text \<open>The \<^verbatim>\<open>try\<close> block of \<^verbatim>\<open>run\<close>: step 1, the loop (step 2), step 3.\<close>

definition run_try ::
  "env \<Rightarrow> ResearchWorkflow \<Rightarrow> string
     \<Rightarrow> (pyexc \<times> ResearchWorkflow) + (run_result \<times> ResearchWorkflow)" where
  "run_try e w0 research_query =
     (case plan_step e w0 research_query of
        Inl x \<Rightarrow> Inl x
      | Inr w2 \<Rightarrow>
          (case for_loop e [0..<max_iterations w2] w2 of
             Inl x \<Rightarrow> Inl x
           | Inr w3 \<Rightarrow> summarize_step e w3))"

text \<open>The \<^verbatim>\<open>except Exception as e\<close> block of \<^verbatim>\<open>run\<close>.\<close>

definition handle_exception :: "pyexc \<Rightarrow> ResearchWorkflow \<Rightarrow> run_result \<times> ResearchWorkflow" where
  "handle_exception x w =
     (let w' = set_status Failed w;
          w'' = w'\<lparr>research_context := (research_context w')\<lparr>error := Some (exc_str x)\<rparr>\<rparr>
      in (\<lparr>success = False, r_error = Some (exc_str x),
           r_research_context = research_context w'',
           papers_discovered = None, r_analysis_count = None,
           final_summary = None\<rparr>, w''))"

text \<open>\<^verbatim>\<open>ResearchWorkflow.run\<close>: initialise the context, run the \<^verbatim>\<open>try\<close> block, and turn an
  exception that \<^verbatim>\<open>except Exception\<close> catches into the failure result. The value is the
  returned dict with the workflow object as the run leaves it, or the exception that
  leaves \<^verbatim>\<open>run\<close>.\<close>

definition run ::
  "env \<Rightarrow> ResearchWorkflow \<Rightarrow> string \<Rightarrow> string \<Rightarrow> string option
     \<Rightarrow> (pyexc \<times> ResearchWorkflow) + (run_result \<times> ResearchWorkflow)" where
  "run e self research_query uid doc =
     (let w0 = self\<lparr>research_context := initial_context research_query uid doc,
                     trace := trace self @ [StatusSet Initializing]\<rparr>
      in
      case run_try e w0 research_query of
        Inr ok \<Rightarrow> Inr ok
      | Inl (x, w) \<Rightarrow> if exc_is_Exception x then Inr (handle_exception x w) else Inl (x, w))"

section \<open>Notions used in the statements\<close>

subsection \<open>Required arguments\<close>

text \<open>The argument names a validator treats as required: those whose description it does
  not recognise as optional. Each validator reads them from its own catalogue.\<close>

definition required_names :: "(string \<times> string) list \<Rightarrow> string list" where
  "required_names arg_descs =
     map fst (filter (\<lambda>(arg_name, arg_desc). \<not> is_optional arg_desc) arg_descs)"

definition registry_required_names :: "(string \<times> string) list \<Rightarrow> string list" where
  "registry_required_names arg_descs =
     map fst (filter (\<lambda>(arg_name, arg_desc). \<not> str_in ''Optional:'' arg_desc) arg_descs)"

definition declared_required :: "string \<Rightarrow> string list" where
  "declared_required tool_name =
     (case map_of TOOL_DESCRIPTIONS tool_name of
        None \<Rightarrow> []
      | Some d \<Rightarrow> required_names (td_args d))"

definition registry_declared_required :: "string \<Rightarrow> string list" where
  "registry_declared_required tool_name =
     (case map_of registry_TOOL_DESCRIPTIONS tool_name of
        None \<Rightarrow> []
      | Some d \<Rightarrow> registry_required_names (td_args d))"

text \<open>A key that is present with a truthy value.\<close>

definition present_truthy :: "pydict \<Rightarrow> string \<Rightarrow> bool" where
  "present_truthy d k = (case map_of d k of None \<Rightarrow> False | Some v \<Rightarrow> truthy v)"

text \<open>The tools for which the activities validator has a rule of its own.\<close>

definition special_cased :: "string list" where
  "special_cased =
     [''extract_citations'', ''arxiv_search_papers'', ''arxiv_download_paper'',
      ''arxiv_read_paper'', ''arxiv_get_metadata'', ''arxiv_deep_analysis'']"

subsection \<open>Observations of a run\<close>

text \<open>The successive values of \<^verbatim>\<open>status\<close>, and the number of calls of one activity.\<close>

fun statuses :: "event list \<Rightarrow> status list" where
  "statuses [] = []"
| "statuses (StatusSet st # evs) = st # statuses evs"
| "statuses (ActivityCall act i # evs) = statuses evs"

fun is_call :: "activity \<Rightarrow> event \<Rightarrow> bool" where
  "is_call act (ActivityCall a i) = (a = act)"
| "is_call act (StatusSet st) = False"

definition count_calls :: "activity \<Rightarrow> event list \<Rightarrow> nat" where
  "count_calls act evs = length (filter (is_call act) evs)"

text \<open>The workflow object a run ends with, whether it returns or raises.\<close>

definition final_workflow ::
  "(pyexc \<times> ResearchWorkflow) + ('r \<times> ResearchWorkflow) \<Rightarrow> ResearchWorkflow" where
  "final_workflow res = (case res of Inl (x, w) \<Rightarrow> w | Inr (r, w) \<Rightarrow> w)"

definition loop_workflow ::
  "(pyexc \<times> ResearchWorkflow) + ResearchWorkflow \<Rightarrow> ResearchWorkflow" where
  "loop_workflow res = (case res of Inl (x, w) \<Rightarrow> w | Inr w \<Rightarrow> w)"

text \<open>Everything a merge leaves alone or only appends to, up to the final step on
  \<^verbatim>\<open>tool_results\<close>: the history, the bound, \<^verbatim>\<open>status\<close> and \<^verbatim>\<open>iteration\<close> are unchanged,
  every accumulator keeps its old entries in front.\<close>

definition grows :: "ResearchWorkflow \<Rightarrow> ResearchWorkflow \<Rightarrow> bool" where
  "grows w w' \<longleftrightarrow>
     (let c = research_context w; c' = research_context w' in
      trace w' = trace w \<and> max_iterations w' = max_iterations w
      \<and> status c' = status c \<and> iteration c' = iteration c
      \<and> tool_results c' = tool_results c
      \<and> (\<exists>ys. discovered_papers w' = discovered_papers w @ ys)
      \<and> (\<exists>ys. olist (downloaded_papers c') = olist (downloaded_papers c) @ ys)
      \<and> (\<exists>ys. olist (read_papers c') = olist (read_papers c) @ ys)
      \<and> (\<exists>ys. olist (citations c') = olist (citations c) @ ys)
      \<and> (\<exists>ys. olist (similar_papers c') = olist (similar_papers c) @ ys)
      \<and> (\<exists>ys. olist (similarity_scores c') = olist (similarity_scores c) @ ys)
      \<and> (\<exists>ys. olist (extracted_content c') = olist (extracted_content c) @ ys)
      \<and> (\<exists>ys. analysis_results w' = analysis_results w @ ys))"

text \<open>The order \<open>initializing < planning_complete < iteration_0 < iteration_1 < \<dots> <
  summarizing < completed, failed\<close>; the two terminal states are not ordered among
  themselves.\<close>

fun status_before :: "status \<Rightarrow> status \<Rightarrow> bool" where
  "status_before Initializing b = (b \<noteq> Initializing)"
| "status_before PlanningComplete b = (b \<noteq> Initializing \<and> b \<noteq> PlanningComplete)"
| "status_before (Iteration i) (Iteration j) = (i < j)"
| "status_before (Iteration i) b = (b = Summarizing \<or> b = Completed \<or> b = Failed)"
| "status_before Summarizing b = (b = Completed \<or> b = Failed)"
| "status_before Completed b = False"
| "status_before Failed b = False"

text \<open>A single transition: forward in the order, and into \<open>completed\<close> only from
  \<open>summarizing\<close>.\<close>

definition forward_step :: "status \<Rightarrow> status \<Rightarrow> bool" where
  "forward_step a b \<longleftrightarrow> status_before a b \<and> (b = Completed \<longrightarrow> a = Summarizing)"

text \<open>The accumulators of the context and of the workflow object, by length.\<close>

definition accumulator_lengths :: "ResearchWorkflow \<Rightarrow> nat list" where
  "accumulator_lengths w =
     (let c = research_context w in
      [length (discovered_papers w), length (olist (downloaded_papers c)),
       length (olist (read_papers c)), length (olist (citations c)),
       length (olist (similar_papers c)), length (olist (similarity_scores c)),
       length (olist (extracted_content c)), length (analysis_results w),
       length (olist (tool_results c))])"

text \<open>The number of papers in the tool's own result inside a dispatcher envelope.\<close>

definition papers_returned :: "tool_result_entry \<Rightarrow> nat" where
  "papers_returned entry =
     (case py_get (result entry) ''result'' of
        PDict d \<Rightarrow> (case py_get d ''papers'' of PList ps \<Rightarrow> length ps | _ \<Rightarrow> 0)
      | _ \<Rightarrow> 0)"

subsection \<open>Example collaborators\<close>

text \<open>An engine that fails no call, a planner that asks for the same paper search in every
  iteration, and a search tool that returns one paper.\<close>

definition search_proposal :: proposal where
  "search_proposal =
     \<lparr>p_action = Some (PStr ''use_tool''), p_tool_name = Some ''arxiv_search_papers'',
      p_tool_args = Some [(''query'', PStr ''X'')]\<rparr>"

definition search_env :: env where
  "search_env =
     \<lparr>llm_plan_research = (\<lambda>q. PDict [(''success'', PBool True), (''query'', PStr q)]),
      llm_analyze = (\<lambda>c tools. search_proposal),
      llm_analyze_summarize = (\<lambda>c. PDict [(''success'', PBool True), (''summary'', PStr ''done'')]),
      tool_call = (\<lambda>i f a. Inr (PDict [(''success'', PBool True),
                                        (''papers'', PList [PDict [(''id'', PStr ''p'')]])])),
      activity_info_at = (\<lambda>i. \<lparr>current_attempt_scheduled_time = PInt 0, attempt = PInt 1\<rparr>),
      workflow_now = (\<lambda>i. PInt (int i)),
      activity_fault = (\<lambda>act i. None),
      activity_error = (\<lambda>x. PyExc ''ActivityError'' ''Activity task failed'' True)\<rparr>"

text \<open>The same with a planner that declares the research complete at once.\<close>

definition complete_env :: env where
  "complete_env =
     search_env\<lparr>llm_analyze :=
       (\<lambda>c tools. \<lparr>p_action = Some (PStr ''complete''), p_tool_name = None, p_tool_args = None\<rparr>)\<rparr>"

text \<open>The same with a planner whose proposal never passes validation.\<close>

definition invalid_env :: env where
  "invalid_env =
     search_env\<lparr>llm_analyze :=
       (\<lambda>c tools. \<lparr>p_action = Some (PStr ''use_tool''), p_tool_name = Some ''extract_citations'',
                    p_tool_args = Some []\<rparr>)\<rparr>"

text \<open>A collaborator set in which the engine fails one activity call.\<close>

definition failing_env :: "env \<Rightarrow> activity \<Rightarrow> nat \<Rightarrow> env" where
  "failing_env e act i =
     e\<lparr>activity_fault :=
         (\<lambda>a j. if a = act \<and> j = i
                 then Some (PyExc ''ActivityError'' ''Activity task timed out'' True)
                 else None)\<rparr>"

section \<open>Properties of the validators\<close>

lemma truthy_py_get: "truthy (py_get d k) = present_truthy d k"
  by (simp add: py_get_def py_get_default_def present_truthy_def split: option.splits)

lemma missing_args_required:
  "missing_args ds a = filter (\<lambda>n. \<not> has_key a n) (required_names ds)"
  by (induction ds) (auto simp: missing_args_def required_names_def)

lemma catalogue_names: "map fst TOOL_DESCRIPTIONS = TOOL_REGISTRY"
  by code_simp

lemma known_iff: "(map_of TOOL_DESCRIPTIONS t \<noteq> None) = (t \<in> set TOOL_REGISTRY)"
  by (simp add: map_of_eq_None_iff catalogue_names [symmetric])

text \<open>When the activities validator accepts a call: the tool is in the catalogue, and
  either its own rule holds or, for a tool without one, every required key is present.\<close>

lemma valid_validate_tool_usage:
  "valid (validate_tool_usage t a) =
     (t \<in> set TOOL_REGISTRY \<and>
      (if t = ''extract_citations''
         then present_truthy a ''paper_text'' \<or> present_truthy a ''paper_url''
       else if t = ''arxiv_search_papers'' then present_truthy a ''query''
       else if t \<in> set [''arxiv_download_paper'', ''arxiv_read_paper'',
                          ''arxiv_get_metadata'', ''arxiv_deep_analysis'']
         then present_truthy a ''paper_id''
       else (\<forall>k \<in> set (declared_required t). has_key a k)))"
proof (cases "map_of TOOL_DESCRIPTIONS t")
  case None
  then show ?thesis
    using known_iff [of t] by (simp add: validate_tool_usage_def not_found_result_def)
next
  case (Some d)
  then have "t \<in> set TOOL_REGISTRY"
    using known_iff [of t] by simp
  with Some show ?thesis
    by (simp add: validate_tool_usage_def Let_def truthy_py_get invalid_result_def
        valid_result_def missing_args_required declared_required_def filter_empty_conv)
qed

text \<open>
  C3. For the tools with a rule of their own, the activities validator answers
  \<open>valid = True\<close> exactly when one of the fields the rule names is present and truthy:
  \<open>paper_text\<close> or \<open>paper_url\<close> for \<open>extract_citations\<close>, \<open>query\<close> for
  \<open>arxiv_search_papers\<close>, \<open>paper_id\<close> for the four paper tools. On
  \<open>extract_citations\<close> with no arguments it answers \<open>valid = False\<close> with a reason that
  contains both \<open>paper_text\<close> and \<open>paper_url\<close>.
\<close>

theorem special_case_validation:
  "valid (validate_tool_usage ''extract_citations'' a)
     = (present_truthy a ''paper_text'' \<or> present_truthy a ''paper_url'')
   \<and> valid (validate_tool_usage ''arxiv_search_papers'' a) = present_truthy a ''query''
   \<and> valid (validate_tool_usage ''arxiv_download_paper'' a) = present_truthy a ''paper_id''
   \<and> valid (validate_tool_usage ''arxiv_read_paper'' a) = present_truthy a ''paper_id''
   \<and> valid (validate_tool_usage ''arxiv_get_metadata'' a) = present_truthy a ''paper_id''
   \<and> valid (validate_tool_usage ''arxiv_deep_analysis'' a) = present_truthy a ''paper_id''
   \<and> \<not> valid (validate_tool_usage ''extract_citations'' [])
   \<and> (\<exists>r. reason (validate_tool_usage ''extract_citations'' []) = Some r
          \<and> str_in ''paper_text'' r \<and> str_in ''paper_url'' r)"
proof -
  have r: "reason (validate_tool_usage ''extract_citations'' [])
             = Some (''extract_citations requires either 'paper_text' or '' @ quoted ''paper_url'')"
    by code_simp
  have s: "str_in ''paper_text''
             (''extract_citations requires either 'paper_text' or '' @ quoted ''paper_url'')
           \<and> str_in ''paper_url''
             (''extract_citations requires either 'paper_text' or '' @ quoted ''paper_url'')"
    by code_simp
  have e: "\<not> valid (validate_tool_usage ''extract_citations'' [])"
    by code_simp
  have v: "valid (validate_tool_usage ''extract_citations'' a)
             = (present_truthy a ''paper_text'' \<or> present_truthy a ''paper_url'')"
          "valid (validate_tool_usage ''arxiv_search_papers'' a) = present_truthy a ''query''"
          "valid (validate_tool_usage ''arxiv_download_paper'' a) = present_truthy a ''paper_id''"
          "valid (validate_tool_usage ''arxiv_read_paper'' a) = present_truthy a ''paper_id''"
          "valid (validate_tool_usage ''arxiv_get_metadata'' a) = present_truthy a ''paper_id''"
          "valid (validate_tool_usage ''arxiv_deep_analysis'' a) = present_truthy a ''paper_id''"
    by (simp_all add: valid_validate_tool_usage TOOL_REGISTRY_def)
  from r s e v show ?thesis by blast
qed

text \<open>
  C4, as stated, fails: the required key \<open>pdf_url\<close> of \<open>process_pdf\<close> is present with
  the falsy value \<open>""\<close> (and likewise with \<open>None\<close>), and the call is accepted.
\<close>

theorem falsy_required_argument_accepted:
  "''process_pdf'' \<notin> set special_cased
   \<and> ''pdf_url'' \<in> set (declared_required ''process_pdf'')
   \<and> has_key [(''pdf_url'', PStr [])] ''pdf_url''
   \<and> \<not> truthy (subscript [(''pdf_url'', PStr [])] ''pdf_url'')
   \<and> valid (validate_tool_usage ''process_pdf'' [(''pdf_url'', PStr [])])
   \<and> valid (validate_tool_usage ''process_pdf'' [(''pdf_url'', PNone)])"
  by code_simp

text \<open>
  C4, amended. For every catalogue tool without a rule of its own (their required keys are
  listed), and for every argument mapping, the activities validator answers
  \<open>valid = False\<close> exactly when a required key is missing from the mapping; the value
  stored under a key that is present plays no part.
\<close>

theorem plain_validation:
  "map (\<lambda>t. (t, declared_required t)) (filter (\<lambda>t. t \<notin> set special_cased) get_available_tools) =
     [(''arxiv_list_papers'', []), (''analyze_citation_network'', [''paper_ids'']),
      (''process_pdf'', [''pdf_url'']), (''extract_sections'', [''paper_text'']),
      (''find_similar_papers'', [''reference_paper'']),
      (''calculate_similarity'', [''paper1_text'', ''paper2_text''])]
   \<and> (\<forall>t a. t \<in> set get_available_tools \<and> t \<notin> set special_cased \<longrightarrow>
          (\<not> valid (validate_tool_usage t a)) = (\<exists>k \<in> set (declared_required t). \<not> has_key a k))"
proof -
  have "map (\<lambda>t. (t, declared_required t)) (filter (\<lambda>t. t \<notin> set special_cased) get_available_tools) =
     [(''arxiv_list_papers'', []), (''analyze_citation_network'', [''paper_ids'']),
      (''process_pdf'', [''pdf_url'']), (''extract_sections'', [''paper_text'']),
      (''find_similar_papers'', [''reference_paper'']),
      (''calculate_similarity'', [''paper1_text'', ''paper2_text''])]"
    by code_simp
  moreover have "(\<not> valid (validate_tool_usage t a)) = (\<exists>k \<in> set (declared_required t). \<not> has_key a k)"
    if "t \<in> set get_available_tools" "t \<notin> set special_cased" for t a
    using that
    by (simp add: valid_validate_tool_usage special_cased_def get_available_tools_def catalogue_names)
  ultimately show ?thesis by blast
qed

theorem plain_validation_witness:
  "''process_pdf'' \<in> set get_available_tools \<and> ''process_pdf'' \<notin> set special_cased
   \<and> (\<not> valid (validate_tool_usage ''process_pdf'' [(''sections'', PList [])]))
       = (\<exists>k \<in> set (declared_required ''process_pdf''). \<not> has_key [(''sections'', PList [])] k)
   \<and> \<not> valid (validate_tool_usage ''process_pdf'' [(''sections'', PList [])])"
proof -
  have m: "''process_pdf'' \<in> set get_available_tools \<and> ''process_pdf'' \<notin> set special_cased"
    by (simp add: get_available_tools_def catalogue_names TOOL_REGISTRY_def special_cased_def)
  have d: "declared_required ''process_pdf'' = [''pdf_url'']"
    by code_simp
  from m plain_validation
  have "(\<not> valid (validate_tool_usage ''process_pdf'' [(''sections'', PList [])]))
       = (\<exists>k \<in> set (declared_required ''process_pdf''). \<not> has_key [(''sections'', PList [])] k)"
    by blast
  with m d show ?thesis by (simp add: has_key_def)
qed

text \<open>
  C10. The two validators are not extensionally equal: on \<open>arxiv_search_papers\<close> with
  \<open>query\<close> present but empty (a key both treat as required) the registry validator
  answers \<open>valid = True\<close> and the activities validator \<open>valid = False\<close>.
\<close>

theorem validators_disagree:
  "''query'' \<in> set (declared_required ''arxiv_search_papers'')
   \<and> ''query'' \<in> set (registry_declared_required ''arxiv_search_papers'')
   \<and> has_key [(''query'', PStr [])] ''query''
   \<and> \<not> truthy (subscript [(''query'', PStr [])] ''query'')
   \<and> valid (registry_validate_tool_usage ''arxiv_search_papers'' [(''query'', PStr [])])
   \<and> \<not> valid (validate_tool_usage ''arxiv_search_papers'' [(''query'', PStr [])])"
  by code_simp

section \<open>Properties of merging and of the agent loop\<close>

lemma grows_refl: "grows w w"
  by (simp add: grows_def)

lemma merge_search_grows: "grows w (fst (merge_search w r t))"
  by (simp add: merge_search_def grows_def Let_def split: sum.split)

lemma merge_download_grows: "grows w (fst (merge_download w r))"
  by (simp add: merge_download_def grows_def Let_def olist_def)

lemma merge_read_grows: "grows w (fst (merge_read w r))"
  by (simp add: merge_read_def grows_def Let_def olist_def split: sum.split)

lemma merge_citations_grows: "grows w (fst (merge_citations w r))"
  by (simp add: merge_citations_def grows_def Let_def olist_def split: sum.split)

lemma merge_pdf_grows: "grows w (fst (merge_pdf w r))"
  by (simp add: merge_pdf_def grows_def Let_def)

lemma merge_similarity_grows: "grows w (fst (merge_similarity w r))"
  by (simp add: merge_similarity_def grows_def Let_def olist_def split: sum.split)

lemma merge_category_grows: "grows w (fst (merge_category w r t))"
  unfolding merge_category_def
  by (simp add: merge_search_grows merge_download_grows merge_read_grows merge_citations_grows
      merge_pdf_grows merge_similarity_grows grows_refl del: set_simps)

lemma ucwr_raised:
  "snd (merge_category w r t) = Some x \<Longrightarrow>
     update_context_with_results w r t n = (fst (merge_category w r t), Some x)"
  by (cases "merge_category w r t") (simp add: update_context_with_results_def)

lemma ucwr_returned:
  "snd (merge_category w r t) = None \<Longrightarrow>
     update_context_with_results w r t n =
       ((fst (merge_category w r t))\<lparr>research_context :=
           (research_context (fst (merge_category w r t)))\<lparr>tool_results :=
             Some (olist (tool_results (research_context (fst (merge_category w r t))))
                   @ [\<lparr>tool = t, result = r, timestamp = n\<rparr>])\<rparr>\<rparr>, None)"
  by (cases "merge_category w r t") (simp add: update_context_with_results_def Let_def olist_def)

lemma ucwr_snd: "snd (update_context_with_results w r t n) = snd (merge_category w r t)"
  by (cases "snd (merge_category w r t)") (simp_all add: ucwr_raised ucwr_returned)

lemma statuses_append: "statuses (xs @ ys) = statuses xs @ statuses ys"
  by (induction xs rule: statuses.induct) simp_all

lemma count_calls_append: "count_calls a (xs @ ys) = count_calls a xs + count_calls a ys"
  by (simp add: count_calls_def)

lemma count_calls_simps:
  "count_calls a [] = 0"
  "count_calls a (StatusSet st # evs) = count_calls a evs"
  "count_calls a (ActivityCall b i # evs) = (if b = a then Suc (count_calls a evs) else count_calls a evs)"
  by (simp_all add: count_calls_def)

lemma ucwr_frame:
  "update_context_with_results w r t n = (w', x) \<Longrightarrow>
     trace w' = trace w \<and> max_iterations w' = max_iterations w
     \<and> status (research_context w') = status (research_context w)
     \<and> iteration (research_context w') = iteration (research_context w)"
proof -
  assume a: "update_context_with_results w r t n = (w', x)"
  have g: "grows w (fst (merge_category w r t))" by (rule merge_category_grows)
  show ?thesis
  proof (cases "snd (merge_category w r t)")
    case None
    from ucwr_returned [OF None, of n] a g show ?thesis
      by (auto simp: grows_def Let_def)
  next
    case (Some y)
    from ucwr_raised [OF Some, of n] a g show ?thesis
      by (auto simp: grows_def Let_def)
  qed
qed

lemma loop_body_statuses:
  "statuses (trace (final_workflow (loop_body e i w))) = statuses (trace w) @ [Iteration i]"
  by (auto simp: loop_body_def execute_activity_def set_status_def Let_def final_workflow_def
      statuses_append dest!: ucwr_frame
      split: option.split sum.split prod.split)


lemma loop_body_max:
  "max_iterations (final_workflow (loop_body e i w)) = max_iterations w"
  by (auto simp: loop_body_def execute_activity_def set_status_def Let_def final_workflow_def
      dest!: ucwr_frame split: option.split sum.split prod.split)

lemma loop_body_iteration:
  "iteration (research_context (final_workflow (loop_body e i w))) = i
   \<and> status (research_context (final_workflow (loop_body e i w))) = Iteration i"
  by (auto simp: loop_body_def execute_activity_def set_status_def Let_def final_workflow_def
      dest!: ucwr_frame split: option.split sum.split prod.split)

lemma loop_body_calls_le:
  "count_calls a (trace (final_workflow (loop_body e i w))) \<le> Suc (count_calls a (trace w))"
  by (cases a)
     (auto simp: loop_body_def execute_activity_def set_status_def Let_def final_workflow_def
      count_calls_append count_calls_simps
      dest!: ucwr_frame split: option.split sum.split prod.split)

lemma loop_body_analyze_eq:
  "loop_body e i w = Inr (f, w') \<Longrightarrow>
     count_calls Act_llm_analyze (trace w') = Suc (count_calls Act_llm_analyze (trace w))"
  by (auto simp: loop_body_def execute_activity_def set_status_def Let_def
      count_calls_append count_calls_simps
      dest!: ucwr_frame split: option.splits sum.splits prod.splits if_splits)

lemma loop_body_continue:
  "loop_body e i w = Inr (f, w') \<Longrightarrow>
   \<forall>c ts. p_action (llm_analyze e c ts) \<noteq> Some (PStr ''complete'') \<Longrightarrow> f = Continue"
  by (auto simp: loop_body_def execute_activity_def set_status_def Let_def
      split: option.splits sum.splits prod.splits if_splits)

lemma workflow_simps:
  "loop_workflow (Inl (x, w)) = w" "loop_workflow (Inr w) = w"
  "final_workflow (Inl (x, w)) = w" "final_workflow (Inr (r, w)) = w"
  by (simp_all add: loop_workflow_def final_workflow_def)

lemma for_loop_max:
  "max_iterations (loop_workflow (for_loop e js w)) = max_iterations w"
proof (induction js arbitrary: w)
  case Nil
  show ?case by (simp add: workflow_simps)
next
  case (Cons i rest)
  show ?case
    using loop_body_max [of e i w] Cons.IH
    by (auto simp: workflow_simps split: sum.split prod.split flow.split)
qed

lemma for_loop_calls_le:
  "count_calls a (trace (loop_workflow (for_loop e js w))) \<le> count_calls a (trace w) + length js"
proof (induction js arbitrary: w)
  case Nil
  show ?case by (simp add: workflow_simps)
next
  case (Cons i rest)
  have b: "count_calls a (trace (final_workflow (loop_body e i w))) \<le> Suc (count_calls a (trace w))"
    by (rule loop_body_calls_le)
  show ?case
  proof (cases "loop_body e i w")
    case (Inl xw)
    moreover obtain x wx where "xw = (x, wx)" by (cases xw)
    ultimately have "loop_body e i w = Inl (x, wx)" by simp
    with b show ?thesis by (simp add: workflow_simps)
  next
    case (Inr fw)
    obtain f w' where fw: "fw = (f, w')" by (cases fw)
    from b Inr fw have b': "count_calls a (trace w') \<le> Suc (count_calls a (trace w))"
      by (simp add: workflow_simps)
    show ?thesis
    proof (cases f)
      case Continue
      from Cons.IH [of w'] b' show ?thesis
        using Inr fw Continue by (simp add: workflow_simps)
    next
      case Break
      with b' show ?thesis using Inr fw by (simp add: workflow_simps)
    qed
  qed
qed

lemma for_loop_statuses:
  "\<exists>k \<le> length js. statuses (trace (loop_workflow (for_loop e js w)))
       = statuses (trace w) @ map Iteration (take k js)"
proof (induction js arbitrary: w)
  case Nil
  show ?case by (simp add: workflow_simps)
next
  case (Cons i rest)
  have b: "statuses (trace (final_workflow (loop_body e i w))) = statuses (trace w) @ [Iteration i]"
    by (rule loop_body_statuses)
  have one: "\<exists>k \<le> length (i # rest). statuses (trace w) @ [Iteration i]
                 = statuses (trace w) @ map Iteration (take k (i # rest))"
    by (rule exI [of _ 1]) simp
  show ?case
  proof (cases "loop_body e i w")
    case (Inl xw)
    moreover obtain x wx where "xw = (x, wx)" by (cases xw)
    ultimately have "loop_body e i w = Inl (x, wx)" by simp
    with b one show ?thesis by (simp add: workflow_simps)
  next
    case (Inr fw)
    obtain f w' where fw: "fw = (f, w')" by (cases fw)
    from b Inr fw have b': "statuses (trace w') = statuses (trace w) @ [Iteration i]"
      by (simp add: workflow_simps)
    show ?thesis
    proof (cases f)
      case Continue
      from Cons.IH [of w'] obtain k where k: "k \<le> length rest"
        "statuses (trace (loop_workflow (for_loop e rest w'))) = statuses (trace w') @ map Iteration (take k rest)"
        by blast
      have "Suc k \<le> length (i # rest)" using k by simp
      moreover have "statuses (trace (loop_workflow (for_loop e (i # rest) w)))
          = statuses (trace w) @ map Iteration (take (Suc k) (i # rest))"
        using Inr fw Continue k b' by (simp add: workflow_simps)
      ultimately show ?thesis by blast
    next
      case Break
      with b one show ?thesis using Inr fw by (simp add: workflow_simps)
    qed
  qed
qed

lemma for_loop_iteration:
  "iteration (research_context (loop_workflow (for_loop e js w)))
     \<in> insert (iteration (research_context w)) (set js)"
proof (induction js arbitrary: w)
  case Nil
  show ?case by (simp add: workflow_simps)
next
  case (Cons i rest)
  have b: "iteration (research_context (final_workflow (loop_body e i w))) = i"
    using loop_body_iteration by blast
  show ?case
  proof (cases "loop_body e i w")
    case (Inl xw)
    moreover obtain x wx where "xw = (x, wx)" by (cases xw)
    ultimately have "loop_body e i w = Inl (x, wx)" by simp
    with b show ?thesis by (simp add: workflow_simps)
  next
    case (Inr fw)
    obtain f w' where fw: "fw = (f, w')" by (cases fw)
    from b Inr fw have b': "iteration (research_context w') = i"
      by (simp add: workflow_simps)
    show ?thesis
    proof (cases f)
      case Continue
      from Cons.IH [of w'] b' show ?thesis
        using Inr fw Continue by (auto simp add: workflow_simps)
    next
      case Break
      with b' show ?thesis using Inr fw by (simp add: workflow_simps)
    qed
  qed
qed

lemma for_loop_exact:
  "for_loop e js w = Inr w' \<Longrightarrow>
   \<forall>c ts. p_action (llm_analyze e c ts) \<noteq> Some (PStr ''complete'') \<Longrightarrow>
   count_calls Act_llm_analyze (trace w') = count_calls Act_llm_analyze (trace w) + length js"
proof (induction js arbitrary: w)
  case Nil
  then show ?case by simp
next
  case (Cons i rest)
  from Cons.prems(1) obtain f w1 where body: "loop_body e i w = Inr (f, w1)"
    by (auto split: sum.splits)
  from loop_body_continue [OF body Cons.prems(2)] have f: "f = Continue" .
  from Cons.prems(1) body f have rest: "for_loop e rest w1 = Inr w'" by simp
  from Cons.IH [OF rest Cons.prems(2)] loop_body_analyze_eq [OF body]
  show ?case by simp
qed

lemma envelope_keys:
  "dynamic_tool_activity call info t a = Inr r \<Longrightarrow>
     \<not> has_key r ''papers'' \<and> \<not> has_key r ''paper_id'' \<and> \<not> has_key r ''content''
     \<and> \<not> has_key r ''citations'' \<and> \<not> has_key r ''network''
     \<and> \<not> has_key r ''similar_papers'' \<and> \<not> has_key r ''similarity''"
  by (auto simp: dynamic_tool_activity_def has_key_def split: sum.splits if_splits)

lemma merge_category_plain:
  assumes "\<not> has_key r ''papers''" "\<not> has_key r ''paper_id''" "\<not> has_key r ''content''"
    "\<not> has_key r ''citations''" "\<not> has_key r ''network''"
    "\<not> has_key r ''similar_papers''" "\<not> has_key r ''similarity''"
  shows "snd (merge_category w r t) = None
     \<and> discovered_papers (fst (merge_category w r t)) = discovered_papers w
     \<and> analysis_results (fst (merge_category w r t)) = analysis_results w
     \<and> olist (downloaded_papers (research_context (fst (merge_category w r t))))
         = olist (downloaded_papers (research_context w))
     \<and> olist (read_papers (research_context (fst (merge_category w r t))))
         = olist (read_papers (research_context w))
     \<and> papers_count (research_context (fst (merge_category w r t))) = papers_count (research_context w)"
  using assms
  by (simp add: merge_category_def merge_download_def merge_read_def merge_citations_def
      merge_similarity_def Let_def olist_def del: set_simps)

lemma envelope_merge_returns:
  "dynamic_tool_activity call info t a = Inr r \<Longrightarrow> snd (update_context_with_results w r t n) = None"
  using envelope_keys [of call info t a r] merge_category_plain [of r w t]
  by (simp add: ucwr_snd)

lemma dispatch_returns:
  "\<forall>h x. call h a = Inl x \<longrightarrow> exc_is_Exception x \<Longrightarrow>
     dynamic_tool_activity call info t a \<noteq> Inl y"
  by (auto simp: dynamic_tool_activity_def dispatch_try_def split: sum.split option.split)

lemma envelope_merge_not_raised:
  "dynamic_tool_activity call info t a = Inr r \<Longrightarrow>
     update_context_with_results w r t n \<noteq> (w', Some x)"
  using envelope_merge_returns [of call info t a r w n] by auto

lemma loop_body_returns:
  assumes "\<forall>a j. activity_fault e a j = None"
    and "\<forall>j h a x. tool_call e j h a = Inl x \<longrightarrow> exc_is_Exception x"
  shows "\<exists>f w'. loop_body e i w = Inr (f, w')"
proof -
  have d: "dynamic_tool_activity (tool_call e i) (activity_info_at e i) t a \<noteq> Inl y" for t a y
    using assms(2) by (intro dispatch_returns) blast
  show ?thesis
    using assms(1)
    by (auto simp: loop_body_def execute_activity_def Let_def d
        dest: envelope_merge_not_raised split: sum.split prod.split option.split)
qed

lemma for_loop_returns:
  assumes "\<forall>a j. activity_fault e a j = None"
    and "\<forall>j h a x. tool_call e j h a = Inl x \<longrightarrow> exc_is_Exception x"
  shows "\<exists>w'. for_loop e js w = Inr w'"
proof (induction js arbitrary: w)
  case Nil
  show ?case by simp
next
  case (Cons i rest)
  from loop_body_returns [OF assms, of i w] obtain f w1 where "loop_body e i w = Inr (f, w1)"
    by blast
  with Cons.IH [of w1] show ?case by (cases f) auto
qed

lemma plan_step_Inl:
  "plan_step e w0 q = Inl (x, w1) \<Longrightarrow>
     w1 = w0\<lparr>trace := trace w0 @ [ActivityCall Act_llm_plan_research 0]\<rparr>"
  by (auto simp: plan_step_def execute_activity_def Let_def split: option.splits)

lemma plan_step_Inr:
  "plan_step e w0 q = Inr w2 \<Longrightarrow>
     w2 = w0\<lparr>research_context :=
               (research_context w0)\<lparr>plan := Some (llm_plan_research e q), status := PlanningComplete\<rparr>,
             trace := trace w0 @ [ActivityCall Act_llm_plan_research 0, StatusSet PlanningComplete]\<rparr>
     \<and> activity_fault e Act_llm_plan_research 0 = None"
  by (auto simp: plan_step_def execute_activity_def set_status_def Let_def split: option.splits)

lemma summarize_step_Inl:
  "summarize_step e w3 = Inl (x, w4) \<Longrightarrow>
     w4 = w3\<lparr>research_context := (research_context w3)\<lparr>status := Summarizing\<rparr>,
             trace := trace w3 @ [StatusSet Summarizing, ActivityCall Act_llm_analyze_summarize 0]\<rparr>"
  by (auto simp: summarize_step_def execute_activity_def set_status_def Let_def split: option.splits)

lemma summarize_step_Inr:
  "summarize_step e w3 = Inr (r, w4) \<Longrightarrow>
     w4 = w3\<lparr>research_context :=
               (research_context w3)\<lparr>status := Completed,
                 summary := Some (llm_analyze_summarize e ((research_context w3)\<lparr>status := Summarizing\<rparr>))\<rparr>,
             trace := trace w3 @ [StatusSet Summarizing, ActivityCall Act_llm_analyze_summarize 0,
                                  StatusSet Completed]\<rparr>
     \<and> success r \<and> r_research_context r = research_context w4
     \<and> final_summary r = summary (research_context w4)
     \<and> papers_discovered r = Some (length (discovered_papers w4))
     \<and> activity_fault e Act_llm_analyze_summarize 0 = None"
  by (auto simp: summarize_step_def execute_activity_def set_status_def Let_def split: option.splits)

lemma handle_exception_snd:
  "snd (handle_exception x w) =
     w\<lparr>research_context := (research_context w)\<lparr>status := Failed, error := Some (exc_str x)\<rparr>,
       trace := trace w @ [StatusSet Failed]\<rparr>"
  by (simp add: handle_exception_def set_status_def Let_def)

lemma final_workflow_Inr: "final_workflow (Inr p) = snd p"
  by (cases p) (simp add: final_workflow_def)

text \<open>The workflow object a run ends with, by the step in which the run stopped.\<close>

lemma run_final:
  fixes e self q u d
  defines "w0 \<equiv> self\<lparr>research_context := initial_context q u d,
                        trace := trace self @ [StatusSet Initializing]\<rparr>"
  defines "stop \<equiv> (\<lambda>x w. if exc_is_Exception x then snd (handle_exception x w) else w)"
  shows "(\<exists>x w1. plan_step e w0 q = Inl (x, w1) \<and> final_workflow (run e self q u d) = stop x w1)
       \<or> (\<exists>w2 x w3. plan_step e w0 q = Inr w2 \<and> for_loop e [0..<max_iterations w2] w2 = Inl (x, w3)
              \<and> final_workflow (run e self q u d) = stop x w3)
       \<or> (\<exists>w2 w3 x w4. plan_step e w0 q = Inr w2 \<and> for_loop e [0..<max_iterations w2] w2 = Inr w3
              \<and> summarize_step e w3 = Inl (x, w4) \<and> final_workflow (run e self q u d) = stop x w4)
       \<or> (\<exists>w2 w3 r w4. plan_step e w0 q = Inr w2 \<and> for_loop e [0..<max_iterations w2] w2 = Inr w3
              \<and> summarize_step e w3 = Inr (r, w4) \<and> run e self q u d = Inr (r, w4))"
proof (cases "plan_step e w0 q")
  case (Inl xw)
  then show ?thesis
    by (cases xw) (simp add: run_def run_try_def w0_def stop_def workflow_simps final_workflow_Inr Let_def)
next
  case p: (Inr w2)
  show ?thesis
  proof (cases "for_loop e [0..<max_iterations w2] w2")
    case (Inl xw)
    with p show ?thesis
      by (cases xw) (simp add: run_def run_try_def w0_def stop_def workflow_simps final_workflow_Inr Let_def)
  next
    case l: (Inr w3)
    show ?thesis
    proof (cases "summarize_step e w3")
      case (Inl xw)
      with p l show ?thesis
        by (cases xw) (simp add: run_def run_try_def w0_def stop_def workflow_simps final_workflow_Inr Let_def)
    next
      case (Inr rw)
      with p l show ?thesis
        by (cases rw) (simp add: run_def run_try_def w0_def stop_def workflow_simps final_workflow_Inr Let_def)
    qed
  qed
qed


lemma stop_statuses:
  "statuses (trace (if exc_is_Exception x then snd (handle_exception x w) else w))
     \<in> {statuses (trace w), statuses (trace w) @ [Failed]}"
  by (simp add: handle_exception_snd statuses_append)

lemma run_statuses:
  assumes "trace self = []"
  shows "statuses (trace (final_workflow (run e self q u d))) = [Initializing]
       \<or> statuses (trace (final_workflow (run e self q u d))) = [Initializing, Failed]
       \<or> (\<exists>k \<le> max_iterations self.
           \<exists>tl \<in> set [[], [Failed], [Summarizing], [Summarizing, Failed], [Summarizing, Completed]].
             statuses (trace (final_workflow (run e self q u d)))
                = Initializing # PlanningComplete # map Iteration [0..<k] @ tl)"
proof -
  define w0 where "w0 = self\<lparr>research_context := initial_context q u d,
                        trace := trace self @ [StatusSet Initializing]\<rparr>"
  define F where "F = statuses (trace (final_workflow (run e self q u d)))"
  have s0: "statuses (trace w0) = [Initializing]"
    using assms by (simp add: w0_def)
  have iter: "\<exists>k \<le> max_iterations self. statuses (trace (loop_workflow (for_loop e [0..<max_iterations w2] w2)))
                = Initializing # PlanningComplete # map Iteration [0..<k]"
    if "plan_step e w0 q = Inr w2" for w2
  proof -
    from plan_step_Inr [OF that] s0
    have "statuses (trace w2) = [Initializing, PlanningComplete]" "max_iterations w2 = max_iterations self"
      by (simp_all add: statuses_append w0_def)
    with for_loop_statuses [of "[0..<max_iterations w2]" e w2] show ?thesis
      by auto
  qed
  from run_final [of e self q u d, folded w0_def]
  consider
    (plan) x w1 where "plan_step e w0 q = Inl (x, w1)"
      "final_workflow (run e self q u d) = (if exc_is_Exception x then snd (handle_exception x w1) else w1)"
  | (loop) w2 x w3 where "plan_step e w0 q = Inr w2" "for_loop e [0..<max_iterations w2] w2 = Inl (x, w3)"
      "final_workflow (run e self q u d) = (if exc_is_Exception x then snd (handle_exception x w3) else w3)"
  | (summ) w2 w3 x w4 where "plan_step e w0 q = Inr w2" "for_loop e [0..<max_iterations w2] w2 = Inr w3"
      "summarize_step e w3 = Inl (x, w4)"
      "final_workflow (run e self q u d) = (if exc_is_Exception x then snd (handle_exception x w4) else w4)"
  | (finished) w2 w3 r w4 where "plan_step e w0 q = Inr w2" "for_loop e [0..<max_iterations w2] w2 = Inr w3"
      "summarize_step e w3 = Inr (r, w4)" "run e self q u d = Inr (r, w4)"
    by blast
  then have "F = [Initializing] \<or> F = [Initializing, Failed]
       \<or> (\<exists>k \<le> max_iterations self.
           \<exists>tl \<in> set [[], [Failed], [Summarizing], [Summarizing, Failed], [Summarizing, Completed]].
             F = Initializing # PlanningComplete # map Iteration [0..<k] @ tl)"
  proof cases
    case plan
    from plan_step_Inl [OF plan(1)] s0 have "statuses (trace w1) = [Initializing]"
      by (simp add: statuses_append)
    with stop_statuses [of x w1] plan(2) show ?thesis
      by (auto simp: F_def)
  next
    case loop
    from iter [OF loop(1)] loop(2) obtain k where k: "k \<le> max_iterations self"
      "statuses (trace w3) = Initializing # PlanningComplete # map Iteration [0..<k]"
      by (auto simp: workflow_simps)
    have "F = Initializing # PlanningComplete # map Iteration [0..<k] @ []
        \<or> F = Initializing # PlanningComplete # map Iteration [0..<k] @ [Failed]"
      using stop_statuses [of x w3] loop(3) k(2) by (auto simp: F_def)
    with k(1) show ?thesis by auto
  next
    case summ
    from iter [OF summ(1)] summ(2) obtain k where k: "k \<le> max_iterations self"
      "statuses (trace w3) = Initializing # PlanningComplete # map Iteration [0..<k]"
      by (auto simp: workflow_simps)
    from summarize_step_Inl [OF summ(3)] k(2)
    have "statuses (trace w4) = Initializing # PlanningComplete # map Iteration [0..<k] @ [Summarizing]"
      by (simp add: statuses_append)
    then have "F = Initializing # PlanningComplete # map Iteration [0..<k] @ [Summarizing]
        \<or> F = Initializing # PlanningComplete # map Iteration [0..<k] @ [Summarizing, Failed]"
      using stop_statuses [of x w4] summ(4) by (auto simp: F_def)
    with k(1) show ?thesis by auto
  next
    case finished
    from iter [OF finished(1)] finished(2) obtain k where k: "k \<le> max_iterations self"
      "statuses (trace w3) = Initializing # PlanningComplete # map Iteration [0..<k]"
      by (auto simp: workflow_simps)
    from summarize_step_Inr [OF finished(3)] k(2)
    have "statuses (trace w4) = Initializing # PlanningComplete # map Iteration [0..<k] @ [Summarizing, Completed]"
      by (simp add: statuses_append)
    then have "F = Initializing # PlanningComplete # map Iteration [0..<k] @ [Summarizing, Completed]"
      using finished(4) by (simp add: F_def workflow_simps)
    with k(1) show ?thesis by auto
  qed
  then show ?thesis by (simp only: F_def)
qed

lemma run_calls_le:
  assumes a: "a = Act_llm_analyze \<or> a = Act_dynamic_tool_activity"
  shows "count_calls a (trace (final_workflow (run e self q u d)))
           \<le> count_calls a (trace self) + max_iterations self"
proof -
  define w0 where "w0 = self\<lparr>research_context := initial_context q u d,
                        trace := trace self @ [StatusSet Initializing]\<rparr>"
  define F where "F = final_workflow (run e self q u d)"
  have c0: "count_calls a (trace w0) = count_calls a (trace self)"
    by (simp add: w0_def count_calls_append count_calls_simps)
  have stop: "count_calls a (trace (if exc_is_Exception x then snd (handle_exception x w) else w))
                = count_calls a (trace w)" for x w
    by (simp add: handle_exception_snd count_calls_append count_calls_simps)
  have iter: "count_calls a (trace (loop_workflow (for_loop e [0..<max_iterations w2] w2)))
                \<le> count_calls a (trace self) + max_iterations self"
    if "plan_step e w0 q = Inr w2" for w2
  proof -
    from plan_step_Inr [OF that] c0 a
    have "count_calls a (trace w2) = count_calls a (trace self)" "max_iterations w2 = max_iterations self"
      by (auto simp: count_calls_append count_calls_simps w0_def)
    with for_loop_calls_le [of a e "[0..<max_iterations w2]" w2] show ?thesis
      by simp
  qed
  from run_final [of e self q u d, folded w0_def F_def]
  consider
    (plan) x w1 where "plan_step e w0 q = Inl (x, w1)"
      "F = (if exc_is_Exception x then snd (handle_exception x w1) else w1)"
  | (loop) w2 x w3 where "plan_step e w0 q = Inr w2" "for_loop e [0..<max_iterations w2] w2 = Inl (x, w3)"
      "F = (if exc_is_Exception x then snd (handle_exception x w3) else w3)"
  | (summ) w2 w3 x w4 where "plan_step e w0 q = Inr w2" "for_loop e [0..<max_iterations w2] w2 = Inr w3"
      "summarize_step e w3 = Inl (x, w4)"
      "F = (if exc_is_Exception x then snd (handle_exception x w4) else w4)"
  | (finished) w2 w3 r w4 where "plan_step e w0 q = Inr w2" "for_loop e [0..<max_iterations w2] w2 = Inr w3"
      "summarize_step e w3 = Inr (r, w4)" "run e self q u d = Inr (r, w4)"
    by blast
  then have "count_calls a (trace F) \<le> count_calls a (trace self) + max_iterations self"
  proof cases
    case plan
    from plan_step_Inl [OF plan(1)] c0 a have "count_calls a (trace w1) = count_calls a (trace self)"
      by (auto simp: count_calls_append count_calls_simps)
    with plan(2) stop [of x w1] show ?thesis by simp
  next
    case loop
    from iter [OF loop(1)] loop(2) loop(3) stop [of x w3] show ?thesis
      by (simp add: workflow_simps)
  next
    case summ
    from summarize_step_Inl [OF summ(3)] a
    have "count_calls a (trace w4) = count_calls a (trace w3)"
      by (auto simp: count_calls_append count_calls_simps)
    with iter [OF summ(1)] summ(2) summ(4) stop [of x w4] show ?thesis
      by (simp add: workflow_simps)
  next
    case finished
    from summarize_step_Inr [OF finished(3)] a
    have "count_calls a (trace w4) = count_calls a (trace w3)"
      by (auto simp: count_calls_append count_calls_simps)
    with iter [OF finished(1)] finished(2) finished(4) show ?thesis
      by (simp add: workflow_simps F_def)
  qed
  then show ?thesis by (simp only: F_def)
qed

lemma run_iteration_le:
  "iteration (research_context (final_workflow (run e self q u d))) \<le> max_iterations self"
proof -
  define w0 where "w0 = self\<lparr>research_context := initial_context q u d,
                        trace := trace self @ [StatusSet Initializing]\<rparr>"
  define F where "F = final_workflow (run e self q u d)"
  have stop: "iteration (research_context (if exc_is_Exception x then snd (handle_exception x w) else w))
                = iteration (research_context w)" for x w
    by (simp add: handle_exception_snd)
  have iter: "iteration (research_context (loop_workflow (for_loop e [0..<max_iterations w2] w2)))
                \<le> max_iterations self"
    if "plan_step e w0 q = Inr w2" for w2
  proof -
    from plan_step_Inr [OF that]
    have "iteration (research_context w2) = 0" "max_iterations w2 = max_iterations self"
      by (simp_all add: w0_def initial_context_def)
    with for_loop_iteration [of e "[0..<max_iterations w2]" w2] show ?thesis
      by auto
  qed
  from run_final [of e self q u d, folded w0_def F_def]
  consider
    (plan) x w1 where "plan_step e w0 q = Inl (x, w1)"
      "F = (if exc_is_Exception x then snd (handle_exception x w1) else w1)"
  | (loop) w2 x w3 where "plan_step e w0 q = Inr w2" "for_loop e [0..<max_iterations w2] w2 = Inl (x, w3)"
      "F = (if exc_is_Exception x then snd (handle_exception x w3) else w3)"
  | (summ) w2 w3 x w4 where "plan_step e w0 q = Inr w2" "for_loop e [0..<max_iterations w2] w2 = Inr w3"
      "summarize_step e w3 = Inl (x, w4)"
      "F = (if exc_is_Exception x then snd (handle_exception x w4) else w4)"
  | (finished) w2 w3 r w4 where "plan_step e w0 q = Inr w2" "for_loop e [0..<max_iterations w2] w2 = Inr w3"
      "summarize_step e w3 = Inr (r, w4)" "run e self q u d = Inr (r, w4)"
    by blast
  then have "iteration (research_context F) \<le> max_iterations self"
  proof cases
    case plan
    from plan_step_Inl [OF plan(1)] have "iteration (research_context w1) = 0"
      by (simp add: w0_def initial_context_def)
    with plan(2) stop [of x w1] show ?thesis by simp
  next
    case loop
    from iter [OF loop(1)] loop(2) loop(3) stop [of x w3] show ?thesis
      by (simp add: workflow_simps)
  next
    case summ
    from summarize_step_Inl [OF summ(3)]
    have "iteration (research_context w4) = iteration (research_context w3)"
      by simp
    with iter [OF summ(1)] summ(2) summ(4) stop [of x w4] show ?thesis
      by (simp add: workflow_simps)
  next
    case finished
    from summarize_step_Inr [OF finished(3)]
    have "iteration (research_context w4) = iteration (research_context w3)"
      by simp
    with iter [OF finished(1)] finished(2) finished(4) show ?thesis
      by (simp add: workflow_simps F_def)
  qed
  then show ?thesis by (simp only: F_def)
qed

text \<open>With an engine that fails no call and tools that raise nothing but \<open>Exception\<close>s,
  the run returns the success result.\<close>

lemma run_completes:
  assumes nf: "\<forall>a j. activity_fault e a j = None"
    and te: "\<forall>j h a x. tool_call e j h a = Inl x \<longrightarrow> exc_is_Exception x"
  shows "\<exists>w2 w3 r w4.
           plan_step e (self\<lparr>research_context := initial_context q u d,
                              trace := trace self @ [StatusSet Initializing]\<rparr>) q = Inr w2
         \<and> for_loop e [0..<max_iterations w2] w2 = Inr w3
         \<and> summarize_step e w3 = Inr (r, w4) \<and> run e self q u d = Inr (r, w4)"
proof -
  define w0 where "w0 = self\<lparr>research_context := initial_context q u d,
                        trace := trace self @ [StatusSet Initializing]\<rparr>"
  from nf obtain w2 where p: "plan_step e w0 q = Inr w2"
    by (auto simp: plan_step_def execute_activity_def Let_def)
  from for_loop_returns [OF nf te, of "[0..<max_iterations w2]" w2]
  obtain w3 where l: "for_loop e [0..<max_iterations w2] w2 = Inr w3" by blast
  from nf obtain r w4 where s: "summarize_step e w3 = Inr (r, w4)"
    by (auto simp: summarize_step_def execute_activity_def Let_def)
  from p l s have "run e self q u d = Inr (r, w4)"
    by (simp add: run_def run_try_def Let_def w0_def)
  with p l s show ?thesis unfolding w0_def by blast
qed

section \<open>The order of the status values\<close>

lemma run_iterations_below:
  assumes "trace self = []"
  shows "Iteration i \<in> set (statuses (trace (final_workflow (run e self q u d))))
           \<Longrightarrow> i < max_iterations self"
  using run_statuses [OF assms, of e q u d] by auto

lemma iterations_forward:
  "sorted_wrt status_before (map Iteration [0..<k])"
  by (simp add: sorted_wrt_map)

lemma iterations_steps:
  "successively forward_step (map Iteration [0..<k])"
proof -
  have "sorted_wrt forward_step (map Iteration [0..<k])"
    by (simp add: sorted_wrt_map forward_step_def)
  then show ?thesis by (rule successively_if_sorted_wrt)
qed

lemma shape_sorted:
  assumes "fin \<in> set [[], [Failed], [Summarizing], [Summarizing, Failed], [Summarizing, Completed]]"
  shows "sorted_wrt status_before (Initializing # PlanningComplete # map Iteration [0..<k] @ fin)"
  using assms iterations_forward [of k]
  by (auto simp: sorted_wrt_append)

lemma shape_steps:
  assumes "fin \<in> set [[], [Failed], [Summarizing], [Summarizing, Failed], [Summarizing, Completed]]"
  shows "successively forward_step (Initializing # PlanningComplete # map Iteration [0..<k] @ fin)"
proof -
  have l: "k \<noteq> 0 \<Longrightarrow> last (map Iteration [0..<k]) = Iteration (k - 1)"
    by (cases k) (simp_all add: last_map)
  have h: "k \<noteq> 0 \<Longrightarrow> hd (map Iteration [0..<k] @ fin) = Iteration 0"
    by (simp add: upt_conv_Cons)
  have m: "successively forward_step (map Iteration [0..<k] @ fin)"
    using assms iterations_steps [of k] l
    by (auto simp: successively_append_iff successively_Cons forward_step_def)
  show ?thesis
  proof (cases "k = 0")
    case True
    with assms show ?thesis
      by (auto simp: successively_Cons forward_step_def)
  next
    case False
    with m h show ?thesis
      by (simp add: successively_Cons forward_step_def)
  qed
qed

text \<open>
  C8. In every run that starts with an empty history, the successive values of \<open>status\<close>
  are strictly increasing in the order \<open>initializing < planning_complete < iteration_0 <
  iteration_1 < \<dots> < summarizing < completed, failed\<close>: the first value is
  \<open>initializing\<close>, no write goes back or repeats a state, nothing follows a terminal
  state, and \<open>completed\<close> is only ever written directly after \<open>summarizing\<close>
  (\<open>failed\<close> may follow any non-terminal state).
\<close>

theorem status_moves_forward:
  assumes "trace self = []"
  shows "sorted_wrt status_before (statuses (trace (final_workflow (run e self q u d))))
       \<and> successively forward_step (statuses (trace (final_workflow (run e self q u d))))
       \<and> hd (statuses (trace (final_workflow (run e self q u d)))) = Initializing"
proof -
  define F where "F = statuses (trace (final_workflow (run e self q u d)))"
  from run_statuses [OF assms, of e q u d]
  consider "F = [Initializing]" | "F = [Initializing, Failed]"
    | k fin where "k \<le> max_iterations self"
        "fin \<in> set [[], [Failed], [Summarizing], [Summarizing, Failed], [Summarizing, Completed]]"
        "F = Initializing # PlanningComplete # map Iteration [0..<k] @ fin"
    unfolding F_def by blast
  then have "sorted_wrt status_before F \<and> successively forward_step F \<and> hd F = Initializing"
  proof cases
    case 1
    then show ?thesis by simp
  next
    case 2
    then show ?thesis by (simp add: forward_step_def)
  next
    case 3
    from shape_sorted [OF 3(2), of k] shape_steps [OF 3(2), of k] 3(3)
    show ?thesis by simp
  qed
  then show ?thesis unfolding F_def .
qed

theorem status_moves_forward_witness:
  "trace init = []
   \<and> sorted_wrt status_before
        (statuses (trace (final_workflow (run complete_env init ''vision transformer'' ''user'' None))))
   \<and> successively forward_step
        (statuses (trace (final_workflow (run complete_env init ''vision transformer'' ''user'' None))))
   \<and> hd (statuses (trace (final_workflow (run complete_env init ''vision transformer'' ''user'' None))))
        = Initializing"
proof -
  have t: "trace init = []" by (simp add: init_def)
  from status_moves_forward [OF t, of complete_env "''vision transformer''" "''user''" None] t
  show ?thesis by simp
qed

text \<open>Runs that end in \<open>failed\<close>: when the planning call fails (directly after
  \<open>initializing\<close>), when a call inside an iteration fails (after \<open>iteration_0\<close>, itself
  reached from \<open>planning_complete\<close>), and when the summarize call fails (after
  \<open>summarizing\<close>).\<close>

lemma failed_is_reachable:
  "statuses (trace (final_workflow
      (run (failing_env search_env Act_llm_plan_research 0) init ''X'' ''user'' None)))
     = [Initializing, Failed]
   \<and> statuses (trace (final_workflow
      (run (failing_env search_env Act_get_available_tools 0) init ''X'' ''user'' None)))
     = [Initializing, PlanningComplete, Iteration 0, Failed]
   \<and> statuses (trace (final_workflow
      (run (failing_env complete_env Act_llm_analyze_summarize 0) init ''X'' ''user'' None)))
     = [Initializing, PlanningComplete, Iteration 0, Summarizing, Failed]"
proof -
  have u: "[0..<10] = 0 # [1..<10]"
    by (simp add: upt_conv_Cons)
  have a: "statuses (trace (final_workflow
      (run (failing_env search_env Act_llm_plan_research 0) init ''X'' ''user'' None)))
     = [Initializing, Failed]"
    by (simp add: run_def run_try_def plan_step_def execute_activity_def failing_env_def
        search_env_def init_def handle_exception_def set_status_def Let_def workflow_simps)
  have b: "statuses (trace (final_workflow
      (run (failing_env search_env Act_get_available_tools 0) init ''X'' ''user'' None)))
     = [Initializing, PlanningComplete, Iteration 0, Failed]"
    by (simp add: run_def run_try_def plan_step_def loop_body_def execute_activity_def
        failing_env_def search_env_def init_def handle_exception_def set_status_def Let_def
        workflow_simps u del: upt_Suc)
  have c: "statuses (trace (final_workflow
      (run (failing_env complete_env Act_llm_analyze_summarize 0) init ''X'' ''user'' None)))
     = [Initializing, PlanningComplete, Iteration 0, Summarizing, Failed]"
    by (simp add: run_def run_try_def plan_step_def loop_body_def summarize_step_def
        execute_activity_def failing_env_def complete_env_def search_env_def init_def
        handle_exception_def set_status_def Let_def workflow_simps u del: upt_Suc)
  from a b c show ?thesis by blast
qed

section \<open>Paper searches\<close>

text \<open>Whatever the tool returned, the dispatcher's envelope has no \<open>papers\<close> key of its
  own, so merging it leaves \<open>discovered_papers\<close> as it was.\<close>

lemma envelope_merge_discovered:
  "dynamic_tool_activity call info t a = Inr r \<Longrightarrow>
     discovered_papers (fst (update_context_with_results w r t n)) = discovered_papers w"
  using envelope_keys [of call info t a r] merge_category_plain [of r w t]
  by (cases "snd (merge_category w r t)") (simp_all add: ucwr_raised ucwr_returned)

lemma loop_body_discovered:
  "discovered_papers (final_workflow (loop_body e i w)) = discovered_papers w"
proof -
  have m: "dynamic_tool_activity call info t a = Inr r \<Longrightarrow>
             update_context_with_results w1 r t n = (w', x) \<Longrightarrow>
             discovered_papers w' = discovered_papers w1" for call info t a r w1 n w' x
    using envelope_merge_discovered [of call info t a r w1 n] by simp
  show ?thesis
    by (auto simp: loop_body_def execute_activity_def set_status_def Let_def final_workflow_def
        dest!: m split: option.split sum.split prod.split)
qed


lemma for_loop_discovered:
  "discovered_papers (loop_workflow (for_loop e js w)) = discovered_papers w"
proof (induction js arbitrary: w)
  case Nil
  show ?case by (simp add: workflow_simps)
next
  case (Cons i rest)
  have b: "discovered_papers (final_workflow (loop_body e i w)) = discovered_papers w"
    by (rule loop_body_discovered)
  show ?case
  proof (cases "loop_body e i w")
    case (Inl xw)
    moreover obtain x wx where "xw = (x, wx)" by (cases xw)
    ultimately have "loop_body e i w = Inl (x, wx)" by simp
    with b show ?thesis by (simp add: workflow_simps)
  next
    case (Inr fw)
    obtain f w' where fw: "fw = (f, w')" by (cases fw)
    from b Inr fw have b': "discovered_papers w' = discovered_papers w"
      by (simp add: workflow_simps)
    show ?thesis
    proof (cases f)
      case Continue
      from Cons.IH [of w'] b' show ?thesis
        using Inr fw Continue by (simp add: workflow_simps)
    next
      case Break
      with b' show ?thesis using Inr fw by (simp add: workflow_simps)
    qed
  qed
qed

text \<open>The dispatcher's envelope around the value \<open>v\<close> of a successful tool call.\<close>

lemma search_valid: "valid (validate_tool_usage ''arxiv_search_papers'' [(''query'', PStr ''X'')])"
  by (simp add: valid_validate_tool_usage TOOL_REGISTRY_def present_truthy_def)

lemma search_dispatch:
  "call Fn_arxiv_search_papers a = Inr v \<Longrightarrow>
     dynamic_tool_activity call info ''arxiv_search_papers'' a =
       Inr [(''success'', PBool True), (''tool_name'', PStr ''arxiv_search_papers''),
            (''result'', v), (''metadata'', metadata info)]"
  by (simp add: dynamic_tool_activity_def dispatch_try_def x_get_tool_handler_def)

lemma search_merge:
  "update_context_with_results w
       [(''success'', PBool True), (''tool_name'', PStr ''arxiv_search_papers''),
        (''result'', v), (''metadata'', m)] ''arxiv_search_papers'' n =
     (w\<lparr>research_context := (research_context w)\<lparr>tool_results :=
          Some (olist (tool_results (research_context w)) @
                [\<lparr>tool = ''arxiv_search_papers'',
                  result = [(''success'', PBool True), (''tool_name'', PStr ''arxiv_search_papers''),
                            (''result'', v), (''metadata'', m)],
                  timestamp = n\<rparr>])\<rparr>\<rparr>, None)"
  by (simp add: update_context_with_results_def merge_category_def has_key_def Let_def olist_def)

text \<open>One iteration of the search scenario: the proposal passes validation, the tool is
  dispatched once, and the envelope is recorded in \<open>tool_results\<close> and nowhere else.\<close>

lemma search_iteration:
  assumes "\<forall>a j. activity_fault e a j = None"
    and "\<forall>c ts. llm_analyze e c ts = search_proposal"
    and "tool_call e i Fn_arxiv_search_papers [(''query'', PStr ''X'')] = Inr v"
  shows "loop_body e i w =
     Inr (Continue,
       w\<lparr>research_context := (research_context w)\<lparr>iteration := i, status := Iteration i,
            tool_results := Some (olist (tool_results (research_context w)) @
                [\<lparr>tool = ''arxiv_search_papers'',
                  result = [(''success'', PBool True), (''tool_name'', PStr ''arxiv_search_papers''),
                            (''result'', v), (''metadata'', metadata (activity_info_at e i))],
                  timestamp = workflow_now e i\<rparr>])\<rparr>,
         trace := trace w @ [StatusSet (Iteration i), ActivityCall Act_get_available_tools i,
                             ActivityCall Act_llm_analyze i, ActivityCall Act_validate_tool_usage i,
                             ActivityCall Act_dynamic_tool_activity i]\<rparr>)"
  using assms
  by (simp add: loop_body_def execute_activity_def set_status_def Let_def search_proposal_def
      search_valid search_dispatch search_merge)


lemma search_loop:
  assumes nf: "\<forall>a j. activity_fault e a j = None"
    and pl: "\<forall>c ts. llm_analyze e c ts = search_proposal"
    and tc: "\<forall>j. tool_call e j Fn_arxiv_search_papers [(''query'', PStr ''X'')] = Inr (res j)"
  shows "\<exists>w'. for_loop e js w = Inr w'
     \<and> count_calls Act_dynamic_tool_activity (trace w')
         = count_calls Act_dynamic_tool_activity (trace w) + length js
     \<and> olist (tool_results (research_context w'))
         = olist (tool_results (research_context w)) @
           map (\<lambda>j. \<lparr>tool = ''arxiv_search_papers'',
                      result = [(''success'', PBool True), (''tool_name'', PStr ''arxiv_search_papers''),
                                (''result'', res j), (''metadata'', metadata (activity_info_at e j))],
                      timestamp = workflow_now e j\<rparr>) js
     \<and> papers_count (research_context w') = papers_count (research_context w)
     \<and> discovered_papers w' = discovered_papers w"
proof (induction js arbitrary: w)
  case Nil
  show ?case by simp
next
  case (Cons i rest)
  from tc have t: "tool_call e i Fn_arxiv_search_papers [(''query'', PStr ''X'')] = Inr (res i)"
    by blast
  note step = search_iteration [OF nf pl t, of w]
  from Cons.IH [of "w\<lparr>research_context := (research_context w)\<lparr>iteration := i, status := Iteration i,
            tool_results := Some (olist (tool_results (research_context w)) @
                [\<lparr>tool = ''arxiv_search_papers'',
                  result = [(''success'', PBool True), (''tool_name'', PStr ''arxiv_search_papers''),
                            (''result'', res i), (''metadata'', metadata (activity_info_at e i))],
                  timestamp = workflow_now e i\<rparr>])\<rparr>,
         trace := trace w @ [StatusSet (Iteration i), ActivityCall Act_get_available_tools i,
                             ActivityCall Act_llm_analyze i, ActivityCall Act_validate_tool_usage i,
                             ActivityCall Act_dynamic_tool_activity i]\<rparr>"]
  show ?case
    by (auto simp: step count_calls_append count_calls_simps olist_def)
qed

text \<open>
  C5, evaluated at the scenario of the claim: the planner proposes \<open>arxiv_search_papers\<close>
  with \<open>{query: "X"}\<close> in every iteration, \<open>max_iterations\<close> is 10, nothing fails and
  every search returns one paper. The run succeeds with exactly 10 dispatches and 10
  entries in \<open>tool_results\<close>, whose results hold 10 papers in all; but
  \<open>discovered_papers\<close> is still empty and \<open>papers_count\<close> was never set, because the
  papers sit under the \<open>result\<close> key of the dispatcher's envelope, where the merge does not
  look.
\<close>

theorem search_results_never_reach_discovered_papers:
  "\<exists>r w. run search_env init ''X'' ''user'' None = Inr (r, w)
     \<and> success r
     \<and> count_calls Act_dynamic_tool_activity (trace w) = 10
     \<and> length (olist (tool_results (research_context w))) = 10
     \<and> sum_list (map papers_returned (olist (tool_results (research_context w)))) = 10
     \<and> discovered_papers w = []
     \<and> papers_discovered r = Some 0
     \<and> papers_count (research_context w) = None"
proof -
  define res where "res = (\<lambda>j::nat. PDict [(''success'', PBool True),
                                           (''papers'', PList [PDict [(''id'', PStr ''p'')]])])"
  have nf: "\<forall>a j. activity_fault search_env a j = None"
    by (simp add: search_env_def)
  have te: "\<forall>j h a x. tool_call search_env j h a = Inl x \<longrightarrow> exc_is_Exception x"
    by (simp add: search_env_def)
  have pl: "\<forall>c ts. llm_analyze search_env c ts = search_proposal"
    by (simp add: search_env_def)
  have tc: "\<forall>j. tool_call search_env j Fn_arxiv_search_papers [(''query'', PStr ''X'')] = Inr (res j)"
    by (simp add: search_env_def res_def)
  from run_completes [OF nf te, of init "''X''" "''user''" None]
  obtain w2 w3 r w4 where
    p: "plan_step search_env (init\<lparr>research_context := initial_context ''X'' ''user'' None,
                              trace := trace init @ [StatusSet Initializing]\<rparr>) ''X'' = Inr w2"
    and l: "for_loop search_env [0..<max_iterations w2] w2 = Inr w3"
    and s: "summarize_step search_env w3 = Inr (r, w4)"
    and r: "run search_env init ''X'' ''user'' None = Inr (r, w4)"
    by blast
  from plan_step_Inr [OF p]
  have w2: "max_iterations w2 = 10" "discovered_papers w2 = []"
    "tool_results (research_context w2) = None" "papers_count (research_context w2) = None"
    "count_calls Act_dynamic_tool_activity (trace w2) = 0"
    by (simp_all add: init_def initial_context_def count_calls_simps)
  from search_loop [OF nf pl tc, of "[0..<max_iterations w2]" w2] l w2
  have w3: "count_calls Act_dynamic_tool_activity (trace w3) = 10"
    "olist (tool_results (research_context w3)) =
       map (\<lambda>j. \<lparr>tool = ''arxiv_search_papers'',
                      result = [(''success'', PBool True), (''tool_name'', PStr ''arxiv_search_papers''),
                                (''result'', res j), (''metadata'', metadata (activity_info_at search_env j))],
                      timestamp = workflow_now search_env j\<rparr>) [0..<10]"
    "papers_count (research_context w3) = None" "discovered_papers w3 = []"
    by (simp_all add: olist_def)
  have one: "papers_returned \<lparr>tool = t, result = [(''success'', PBool True), (''tool_name'', PStr t),
                                (''result'', res j), (''metadata'', m)], timestamp = n\<rparr> = 1" for t j m n
    by (simp add: papers_returned_def py_get_def py_get_default_def res_def)
  from summarize_step_Inr [OF s] w3
  have "success r" "count_calls Act_dynamic_tool_activity (trace w4) = 10"
    "length (olist (tool_results (research_context w4))) = 10"
    "sum_list (map papers_returned (olist (tool_results (research_context w4)))) = 10"
    "discovered_papers w4 = []" "papers_discovered r = Some 0"
    "papers_count (research_context w4) = None"
    by (simp_all add: count_calls_append count_calls_simps comp_def one sum_list_triv del: upt_Suc)
  with r show ?thesis by blast
qed

section \<open>The bound on the agent loop\<close>

lemma run_max:
  "max_iterations (final_workflow (run e self q u d)) = max_iterations self"
proof -
  define w0 where "w0 = self\<lparr>research_context := initial_context q u d,
                        trace := trace self @ [StatusSet Initializing]\<rparr>"
  define F where "F = final_workflow (run e self q u d)"
  have stop: "max_iterations (if exc_is_Exception x then snd (handle_exception x w) else w)
                = max_iterations w" for x w
    by (simp add: handle_exception_snd)
  have iter: "max_iterations (loop_workflow (for_loop e [0..<max_iterations w2] w2)) = max_iterations self"
    if "plan_step e w0 q = Inr w2" for w2
    using plan_step_Inr [OF that] for_loop_max [of e "[0..<max_iterations w2]" w2]
    by (simp add: w0_def)
  from run_final [of e self q u d, folded w0_def F_def]
  consider
    (plan) x w1 where "plan_step e w0 q = Inl (x, w1)"
      "F = (if exc_is_Exception x then snd (handle_exception x w1) else w1)"
  | (loop) w2 x w3 where "plan_step e w0 q = Inr w2" "for_loop e [0..<max_iterations w2] w2 = Inl (x, w3)"
      "F = (if exc_is_Exception x then snd (handle_exception x w3) else w3)"
  | (summ) w2 w3 x w4 where "plan_step e w0 q = Inr w2" "for_loop e [0..<max_iterations w2] w2 = Inr w3"
      "summarize_step e w3 = Inl (x, w4)"
      "F = (if exc_is_Exception x then snd (handle_exception x w4) else w4)"
  | (finished) w2 w3 r w4 where "plan_step e w0 q = Inr w2" "for_loop e [0..<max_iterations w2] w2 = Inr w3"
      "summarize_step e w3 = Inr (r, w4)" "run e self q u d = Inr (r, w4)"
    by blast
  then have "max_iterations F = max_iterations self"
  proof cases
    case plan
    from plan_step_Inl [OF plan(1)] have "max_iterations w1 = max_iterations self"
      by (simp add: w0_def)
    with plan(2) stop [of x w1] show ?thesis by simp
  next
    case loop
    from iter [OF loop(1)] loop(2) loop(3) stop [of x w3] show ?thesis
      by (simp add: workflow_simps)
  next
    case summ
    from summarize_step_Inl [OF summ(3)]
    have "max_iterations w4 = max_iterations w3"
      by simp
    with iter [OF summ(1)] summ(2) summ(4) stop [of x w4] show ?thesis
      by (simp add: workflow_simps)
  next
    case finished
    from summarize_step_Inr [OF finished(3)]
    have "max_iterations w4 = max_iterations w3"
      by simp
    with iter [OF finished(1)] finished(2) finished(4) show ?thesis
      by (simp add: workflow_simps F_def)
  qed
  then show ?thesis unfolding F_def .
qed

text \<open>
  C1. In every run that starts with an empty history, whatever the planner, the tools and
  the engine do: \<^verbatim>\<open>llm_analyze\<close> is called at most \<open>max_iterations\<close> times in its
  \<^verbatim>\<open>next_action\<close> mode, a tool is dispatched at most \<open>max_iterations\<close> times, every
  iteration number written is below \<open>max_iterations\<close>, the \<open>iteration\<close> field ends at most
  at \<open>max_iterations\<close>, and the bound itself is not changed by the run. When the planner
  never answers \<open>complete\<close> (and no activity call fails, so that the loop is not left by
  an exception), the run succeeds after exactly \<open>max_iterations\<close> cycles. A fresh workflow
  object has \<open>max_iterations = 10\<close> and an empty history.
\<close>

theorem agent_loop_bounded:
  assumes "trace self = []"
  shows "count_calls Act_llm_analyze (trace (final_workflow (run e self q u d))) \<le> max_iterations self
     \<and> count_calls Act_dynamic_tool_activity (trace (final_workflow (run e self q u d)))
          \<le> max_iterations self
     \<and> iteration (research_context (final_workflow (run e self q u d))) \<le> max_iterations self
     \<and> (\<forall>i. Iteration i \<in> set (statuses (trace (final_workflow (run e self q u d))))
              \<longrightarrow> i < max_iterations self)
     \<and> max_iterations (final_workflow (run e self q u d)) = max_iterations self
     \<and> ((\<forall>c ts. p_action (llm_analyze e c ts) \<noteq> Some (PStr ''complete''))
          \<and> (\<forall>a j. activity_fault e a j = None)
          \<and> (\<forall>j h a x. tool_call e j h a = Inl x \<longrightarrow> exc_is_Exception x)
         \<longrightarrow> (\<exists>r. run e self q u d = Inr (r, final_workflow (run e self q u d)) \<and> success r)
              \<and> count_calls Act_llm_analyze (trace (final_workflow (run e self q u d)))
                   = max_iterations self)
     \<and> max_iterations init = 10 \<and> trace init = []"
proof -
  define F where "F = final_workflow (run e self q u d)"
  have a: "count_calls Act_llm_analyze (trace F) \<le> max_iterations self"
    using run_calls_le [of Act_llm_analyze e self q u d] assms
    by (simp add: F_def count_calls_simps)
  have b: "count_calls Act_dynamic_tool_activity (trace F) \<le> max_iterations self"
    using run_calls_le [of Act_dynamic_tool_activity e self q u d] assms
    by (simp add: F_def count_calls_simps)
  have c: "iteration (research_context F) \<le> max_iterations self"
    unfolding F_def by (rule run_iteration_le)
  have d: "\<forall>i. Iteration i \<in> set (statuses (trace F)) \<longrightarrow> i < max_iterations self"
    unfolding F_def using run_iterations_below [OF assms] by blast
  have m: "max_iterations F = max_iterations self"
    unfolding F_def by (rule run_max)
  have x: "(\<exists>r. run e self q u d = Inr (r, F) \<and> success r)
              \<and> count_calls Act_llm_analyze (trace F) = max_iterations self"
    if nc: "\<forall>c ts. p_action (llm_analyze e c ts) \<noteq> Some (PStr ''complete'')"
      and nf: "\<forall>a j. activity_fault e a j = None"
      and te: "\<forall>j h a x. tool_call e j h a = Inl x \<longrightarrow> exc_is_Exception x"
  proof -
    from run_completes [OF nf te, of self q u d]
    obtain w2 w3 r w4 where
      p: "plan_step e (self\<lparr>research_context := initial_context q u d,
                              trace := trace self @ [StatusSet Initializing]\<rparr>) q = Inr w2"
      and l: "for_loop e [0..<max_iterations w2] w2 = Inr w3"
      and s: "summarize_step e w3 = Inr (r, w4)"
      and r: "run e self q u d = Inr (r, w4)"
      by blast
    from plan_step_Inr [OF p] assms
    have w2: "max_iterations w2 = max_iterations self" "count_calls Act_llm_analyze (trace w2) = 0"
      by (simp_all add: count_calls_simps)
    from for_loop_exact [OF l nc] w2
    have "count_calls Act_llm_analyze (trace w3) = max_iterations self" by simp
    with summarize_step_Inr [OF s]
    have "success r" "count_calls Act_llm_analyze (trace w4) = max_iterations self"
      by (simp_all add: count_calls_append count_calls_simps)
    with r show ?thesis by (simp add: F_def workflow_simps)
  qed
  have i: "max_iterations init = 10 \<and> trace init = []"
    by (simp add: init_def)
  from a b c d m x i show ?thesis unfolding F_def by blast
qed

theorem agent_loop_bounded_witness:
  "trace init = [] \<and> max_iterations init = 10
   \<and> (\<exists>r. run search_env init ''X'' ''user'' None
              = Inr (r, final_workflow (run search_env init ''X'' ''user'' None)) \<and> success r)
   \<and> count_calls Act_llm_analyze (trace (final_workflow (run search_env init ''X'' ''user'' None))) = 10"
proof -
  have t: "trace init = []" by (simp add: init_def)
  have h: "(\<forall>c ts. p_action (llm_analyze search_env c ts) \<noteq> Some (PStr ''complete''))
          \<and> (\<forall>a j. activity_fault search_env a j = None)
          \<and> (\<forall>j h a x. tool_call search_env j h a = Inl x \<longrightarrow> exc_is_Exception x)"
    by (simp add: search_env_def search_proposal_def)
  from agent_loop_bounded [OF t, of search_env "''X''" "''user''" None] h t
  show ?thesis by simp
qed

section \<open>Completion at the first iteration\<close>

text \<open>
  C9. If the planner answers \<open>complete\<close> at iteration 0 (the loop runs at least once, and
  the four activity calls made on the way do not fail), the run returns the success result:
  the context is the initial one with the plan, the status \<open>completed\<close> and the summary
  that the summarize call produced; \<open>iteration\<close> is 0, \<open>tool_results\<close> was never created, no
  tool was validated or dispatched, and the result carries the same summary.
\<close>

theorem completes_at_first_iteration:
  assumes m: "0 < max_iterations self"
    and f: "activity_fault e Act_llm_plan_research 0 = None"
           "activity_fault e Act_get_available_tools 0 = None"
           "activity_fault e Act_llm_analyze 0 = None"
           "activity_fault e Act_llm_analyze_summarize 0 = None"
    and c: "\<forall>ctx ts. iteration ctx = 0 \<longrightarrow> p_action (llm_analyze e ctx ts) = Some (PStr ''complete'')"
  shows "\<exists>r w summ. run e self q u d = Inr (r, w)
     \<and> success r
     \<and> summ = llm_analyze_summarize e
                ((initial_context q u d)\<lparr>status := Summarizing, plan := Some (llm_plan_research e q)\<rparr>)
     \<and> research_context w =
          (initial_context q u d)\<lparr>status := Completed, plan := Some (llm_plan_research e q),
                                    summary := Some summ\<rparr>
     \<and> iteration (research_context w) = 0
     \<and> tool_results (research_context w) = None
     \<and> status (research_context w) = Completed
     \<and> summary (research_context w) = Some summ
     \<and> final_summary r = Some summ
     \<and> r_research_context r = research_context w
     \<and> trace w = trace self @
          [StatusSet Initializing, ActivityCall Act_llm_plan_research 0, StatusSet PlanningComplete,
           StatusSet (Iteration 0), ActivityCall Act_get_available_tools 0,
           ActivityCall Act_llm_analyze 0, StatusSet Summarizing,
           ActivityCall Act_llm_analyze_summarize 0, StatusSet Completed]
     \<and> count_calls Act_dynamic_tool_activity (trace w) = count_calls Act_dynamic_tool_activity (trace self)"
proof -
  define w0 where "w0 = self\<lparr>research_context := initial_context q u d,
                        trace := trace self @ [StatusSet Initializing]\<rparr>"
  define w2 where "w2 = w0\<lparr>research_context :=
               (research_context w0)\<lparr>plan := Some (llm_plan_research e q), status := PlanningComplete\<rparr>,
             trace := trace w0 @ [ActivityCall Act_llm_plan_research 0, StatusSet PlanningComplete]\<rparr>"
  define w3 where "w3 = w2\<lparr>research_context := (research_context w2)\<lparr>iteration := 0, status := Iteration 0\<rparr>,
             trace := trace w2 @ [StatusSet (Iteration 0), ActivityCall Act_get_available_tools 0,
                                  ActivityCall Act_llm_analyze 0]\<rparr>"
  have p: "plan_step e w0 q = Inr w2"
    using f(1) by (simp add: plan_step_def execute_activity_def set_status_def Let_def w2_def)
  have b: "loop_body e 0 w2 = Inr (Break, w3)"
    using f(2,3) c
    by (simp add: loop_body_def execute_activity_def set_status_def Let_def w3_def)
  have u: "[0..<max_iterations w2] = 0 # [1..<max_iterations w2]"
    using m by (simp add: w2_def w0_def upt_conv_Cons)
  have l: "for_loop e [0..<max_iterations w2] w2 = Inr w3"
    by (simp only: u for_loop.simps b sum.case prod.case flow.case)
  obtain r w4 where s: "summarize_step e w3 = Inr (r, w4)"
    using f(4) by (auto simp: summarize_step_def execute_activity_def Let_def)
  from p l s have r: "run e self q u d = Inr (r, w4)"
    by (simp add: run_def run_try_def Let_def w0_def)
  from summarize_step_Inr [OF s]
  have "success r"
    "research_context w4 =
          (initial_context q u d)\<lparr>status := Completed, plan := Some (llm_plan_research e q),
             summary := Some (llm_analyze_summarize e
                ((initial_context q u d)\<lparr>status := Summarizing, plan := Some (llm_plan_research e q)\<rparr>))\<rparr>"
    "final_summary r = summary (research_context w4)"
    "r_research_context r = research_context w4"
    "trace w4 = trace self @
          [StatusSet Initializing, ActivityCall Act_llm_plan_research 0, StatusSet PlanningComplete,
           StatusSet (Iteration 0), ActivityCall Act_get_available_tools 0,
           ActivityCall Act_llm_analyze 0, StatusSet Summarizing,
           ActivityCall Act_llm_analyze_summarize 0, StatusSet Completed]"
    by (simp_all add: w3_def w2_def w0_def initial_context_def)
  with r show ?thesis
    by (simp add: count_calls_append count_calls_simps initial_context_def)
qed

theorem completes_at_first_iteration_witness:
  "\<exists>r w. run complete_env init ''vision transformer'' ''user'' None = Inr (r, w)
     \<and> success r
     \<and> iteration (research_context w) = 0
     \<and> tool_results (research_context w) = None
     \<and> status (research_context w) = Completed
     \<and> summary (research_context w) = Some (PDict [(''success'', PBool True), (''summary'', PStr ''done'')])
     \<and> final_summary r = Some (PDict [(''success'', PBool True), (''summary'', PStr ''done'')])
     \<and> count_calls Act_dynamic_tool_activity (trace w) = 0"
proof -
  have m: "0 < max_iterations init" by (simp add: init_def)
  have f: "activity_fault complete_env Act_llm_plan_research 0 = None"
           "activity_fault complete_env Act_get_available_tools 0 = None"
           "activity_fault complete_env Act_llm_analyze 0 = None"
           "activity_fault complete_env Act_llm_analyze_summarize 0 = None"
    by (simp_all add: complete_env_def search_env_def)
  have c: "\<forall>ctx ts. iteration ctx = 0 \<longrightarrow> p_action (llm_analyze complete_env ctx ts) = Some (PStr ''complete'')"
    by (simp add: complete_env_def)
  have s: "llm_analyze_summarize complete_env x = PDict [(''success'', PBool True), (''summary'', PStr ''done'')]" for x
    by (simp add: complete_env_def search_env_def)
  have t: "trace init = []" by (simp add: init_def)
  from completes_at_first_iteration [OF m f c, of "''vision transformer''" "''user''" None]
  show ?thesis by (auto simp: s t count_calls_simps)
qed

section \<open>Skipping a rejected proposal\<close>

text \<open>
  C6. When, in iteration \<open>i\<close>, the planner proposes a tool call that the validator rejects
  (and the three activity calls made up to there do not fail), the body of the loop ends
  normally and asks for the next iteration: no tool is dispatched, nothing is merged (the
  context changes in \<open>iteration\<close> and \<open>status\<close> only, every accumulator keeps its
  length), no exception is raised, and the loop goes on with iteration \<open>i + 1\<close> from that
  state.
\<close>

theorem validation_failure_is_skipped:
  assumes f: "activity_fault e Act_get_available_tools i = None"
             "activity_fault e Act_llm_analyze i = None"
             "activity_fault e Act_validate_tool_usage i = None"
    and na: "llm_analyze e ((research_context w)\<lparr>iteration := i, status := Iteration i\<rparr>)
               get_available_tools = next_action"
    and nc: "p_action next_action \<noteq> Some (PStr ''complete'')"
    and tn: "p_tool_name next_action = Some t"
    and ta: "p_tool_args next_action = Some a"
    and iv: "\<not> valid (validate_tool_usage t a)"
  shows "\<exists>w'. loop_body e i w = Inr (Continue, w')
     \<and> research_context w' = (research_context w)\<lparr>iteration := i, status := Iteration i\<rparr>
     \<and> discovered_papers w' = discovered_papers w
     \<and> analysis_results w' = analysis_results w
     \<and> accumulator_lengths w' = accumulator_lengths w
     \<and> trace w' = trace w @ [StatusSet (Iteration i), ActivityCall Act_get_available_tools i,
                               ActivityCall Act_llm_analyze i, ActivityCall Act_validate_tool_usage i]
     \<and> count_calls Act_dynamic_tool_activity (trace w') = count_calls Act_dynamic_tool_activity (trace w)
     \<and> (i < n \<longrightarrow> for_loop e [i..<n] w = for_loop e [Suc i..<n] w')"
proof -
  define w' where "w' = w\<lparr>research_context := (research_context w)\<lparr>iteration := i, status := Iteration i\<rparr>,
      trace := trace w @ [StatusSet (Iteration i), ActivityCall Act_get_available_tools i,
                               ActivityCall Act_llm_analyze i, ActivityCall Act_validate_tool_usage i]\<rparr>"
  have b: "loop_body e i w = Inr (Continue, w')"
    using f na nc tn ta iv
    by (simp add: loop_body_def execute_activity_def set_status_def Let_def w'_def)
  have l: "for_loop e [i..<n] w = for_loop e [Suc i..<n] w'" if "i < n"
    using that b by (simp add: upt_conv_Cons)
  have "research_context w' = (research_context w)\<lparr>iteration := i, status := Iteration i\<rparr>"
    "discovered_papers w' = discovered_papers w" "analysis_results w' = analysis_results w"
    "accumulator_lengths w' = accumulator_lengths w"
    "trace w' = trace w @ [StatusSet (Iteration i), ActivityCall Act_get_available_tools i,
                               ActivityCall Act_llm_analyze i, ActivityCall Act_validate_tool_usage i]"
    "count_calls Act_dynamic_tool_activity (trace w') = count_calls Act_dynamic_tool_activity (trace w)"
    by (simp_all add: w'_def accumulator_lengths_def Let_def count_calls_append count_calls_simps)
  with b l show ?thesis by blast
qed

theorem validation_failure_is_skipped_witness:
  "\<not> valid (validate_tool_usage ''extract_citations'' [])
   \<and> (\<exists>w'. loop_body invalid_env 0 init = Inr (Continue, w')
        \<and> accumulator_lengths w' = accumulator_lengths init
        \<and> tool_results (research_context w') = None
        \<and> count_calls Act_dynamic_tool_activity (trace w') = 0
        \<and> for_loop invalid_env [0..<10] init = for_loop invalid_env [Suc 0..<10] w')"
proof -
  have f: "activity_fault invalid_env Act_get_available_tools 0 = None"
             "activity_fault invalid_env Act_llm_analyze 0 = None"
             "activity_fault invalid_env Act_validate_tool_usage 0 = None"
    by (simp_all add: invalid_env_def search_env_def)
  have na: "llm_analyze invalid_env ((research_context init)\<lparr>iteration := 0, status := Iteration 0\<rparr>)
               get_available_tools
            = \<lparr>p_action = Some (PStr ''use_tool''), p_tool_name = Some ''extract_citations'',
                p_tool_args = Some []\<rparr>"
    by (simp add: invalid_env_def)
  have iv: "\<not> valid (validate_tool_usage ''extract_citations'' [])"
    by (simp add: valid_validate_tool_usage present_truthy_def)
  have t: "trace init = []" "tool_results (research_context init) = None"
    by (simp_all add: init_def initial_context_def)
  from validation_failure_is_skipped [OF f na _ _ _ iv, of 10]
  obtain w' where "loop_body invalid_env 0 init = Inr (Continue, w')"
    "research_context w' = (research_context init)\<lparr>iteration := 0, status := Iteration 0\<rparr>"
    "accumulator_lengths w' = accumulator_lengths init"
    "count_calls Act_dynamic_tool_activity (trace w') = count_calls Act_dynamic_tool_activity (trace init)"
    "for_loop invalid_env [0..<10] init = for_loop invalid_env [Suc 0..<10] w'"
    by auto
  with iv t show ?thesis by (auto simp: count_calls_simps)
qed


section \<open>What a merge adds\<close>

text \<open>On a raw tool result, with \<open>papers\<close> at the top level, the merge does append the
  papers: this is the branch that the envelope keeps a run from taking.\<close>

lemma merge_search_appends:
  assumes "t = ''arxiv_search_papers'' \<or> t = ''arxiv_search''"
    and "map_of r ''papers'' = Some (PList ps)"
  shows "discovered_papers (fst (update_context_with_results w r t n)) = discovered_papers w @ ps"
proof -
  from assms have m: "merge_category w r t = merge_search w r t"
    by (auto simp: merge_category_def has_key_def)
  from assms(2) have d: "discovered_papers (fst (merge_search w r t)) = discovered_papers w @ ps"
    by (simp add: merge_search_def subscript_def Let_def split: sum.split)
  show ?thesis
    by (cases "snd (merge_category w r t)") (simp_all add: ucwr_raised ucwr_returned m d)
qed

lemma grows_lengths:
  "grows w w' \<Longrightarrow> list_all2 (\<le>) (accumulator_lengths w) (accumulator_lengths w')"
  by (auto simp: grows_def accumulator_lengths_def Let_def)

text \<open>
  C7. A call of \<^verbatim>\<open>_update_context_with_results\<close> that returns has appended exactly one
  entry \<open>{tool, result, timestamp}\<close> to \<open>tool_results\<close>, whatever the tool name and
  whatever the result says about success; no call, returning or raising, makes any of the
  nine accumulators shorter; and on every envelope that the dispatcher returns for that
  tool name the call does return. (A call raises only on a result whose \<open>papers\<close>,
  \<open>citations\<close>, \<open>similar_papers\<close> or \<open>content\<close> is not of the type the code iterates
  over.)
\<close>

theorem merge_appends_one_entry:
  "(snd (update_context_with_results w r t n) = None \<longrightarrow>
      tool_results (research_context (fst (update_context_with_results w r t n)))
        = Some (olist (tool_results (research_context w)) @ [\<lparr>tool = t, result = r, timestamp = n\<rparr>])
      \<and> length (olist (tool_results (research_context (fst (update_context_with_results w r t n)))))
        = Suc (length (olist (tool_results (research_context w)))))
   \<and> list_all2 (\<le>) (accumulator_lengths w)
        (accumulator_lengths (fst (update_context_with_results w r t n)))
   \<and> (\<forall>call info a. dynamic_tool_activity call info t a = Inr r
         \<longrightarrow> snd (update_context_with_results w r t n) = None)"
proof -
  define w1 where "w1 = fst (merge_category w r t)"
  have g: "grows w w1" unfolding w1_def by (rule merge_category_grows)
  have a: "tool_results (research_context (fst (update_context_with_results w r t n)))
        = Some (olist (tool_results (research_context w)) @ [\<lparr>tool = t, result = r, timestamp = n\<rparr>])
      \<and> length (olist (tool_results (research_context (fst (update_context_with_results w r t n)))))
        = Suc (length (olist (tool_results (research_context w))))"
    if "snd (update_context_with_results w r t n) = None"
  proof -
    from that have "snd (merge_category w r t) = None" by (simp add: ucwr_snd)
    from ucwr_returned [OF this, of n] g show ?thesis
      by (simp add: w1_def grows_def Let_def olist_def)
  qed
  have b: "list_all2 (\<le>) (accumulator_lengths w)
        (accumulator_lengths (fst (update_context_with_results w r t n)))"
  proof (cases "snd (merge_category w r t)")
    case None
    from ucwr_returned [OF None, of n] g show ?thesis
      by (auto simp: w1_def grows_def accumulator_lengths_def Let_def olist_def)
  next
    case (Some x)
    from ucwr_raised [OF Some, of n] grows_lengths [OF g] show ?thesis
      by (simp add: w1_def)
  qed
  have c: "\<forall>call info a. dynamic_tool_activity call info t a = Inr r
         \<longrightarrow> snd (update_context_with_results w r t n) = None"
    using envelope_merge_returns by blast
  from a b c show ?thesis by blast
qed

theorem merge_appends_one_entry_witness:
  "snd (update_context_with_results init [(''success'', PBool False)] ''no_such_tool'' (PInt 0)) = None
   \<and> tool_results (research_context
        (fst (update_context_with_results init [(''success'', PBool False)] ''no_such_tool'' (PInt 0))))
      = Some [\<lparr>tool = ''no_such_tool'', result = [(''success'', PBool False)], timestamp = PInt 0\<rparr>]"
proof -
  have s: "snd (update_context_with_results init [(''success'', PBool False)] ''no_such_tool'' (PInt 0)) = None"
    by (simp add: ucwr_snd merge_category_def has_key_def)
  have t: "tool_results (research_context init) = None"
    by (simp add: init_def initial_context_def)
  from merge_appends_one_entry [of init "[(''success'', PBool False)]" "''no_such_tool''" "PInt 0"] s t
  show ?thesis by (simp add: olist_def)
qed

section \<open>The dispatcher\<close>

lemma unknown_tool: "(x_get_tool_handler t = None) = (t \<notin> set TOOL_REGISTRY)"
  by (simp add: x_get_tool_handler_def TOOL_REGISTRY_def)

text \<open>
  C2, as stated, fails in two places. For an unknown tool name the envelope's
  \<open>error_type\<close> is \<open>ValueError\<close>, the class of the exception raised internally, exactly
  what a registered tool whose handler raises a \<open>ValueError\<close> gives: the field does not
  indicate absence (the \<open>error\<close> text does). And a handler exception that does not derive
  from \<open>Exception\<close>, such as \<open>asyncio.CancelledError\<close>, is not caught and leaves the
  activity.
\<close>

theorem dispatch_error_type_is_the_class_name:
  "dynamic_tool_activity (\<lambda>h a. Inl (PyExc ''ValueError'' ''bad value'' True))
       \<lparr>current_attempt_scheduled_time = PInt 0, attempt = PInt 1\<rparr> ''no_such_tool'' []
     = Inr [(''success'', PBool False), (''tool_name'', PStr ''no_such_tool''),
            (''error'', PStr (''Tool '' @ quoted ''no_such_tool'' @ '' not found in registry'')),
            (''error_type'', PStr ''ValueError''),
            (''metadata'', PDict [(''execution_time'', PInt 0), (''attempt'', PInt 1)])]
   \<and> dynamic_tool_activity (\<lambda>h a. Inl (PyExc ''ValueError'' ''bad value'' True))
       \<lparr>current_attempt_scheduled_time = PInt 0, attempt = PInt 1\<rparr> ''process_pdf'' []
     = Inr [(''success'', PBool False), (''tool_name'', PStr ''process_pdf''),
            (''error'', PStr ''bad value''),
            (''error_type'', PStr ''ValueError''),
            (''metadata'', PDict [(''execution_time'', PInt 0), (''attempt'', PInt 1)])]
   \<and> dynamic_tool_activity (\<lambda>h a. Inl (PyExc ''CancelledError'' [] False))
       \<lparr>current_attempt_scheduled_time = PInt 0, attempt = PInt 1\<rparr> ''process_pdf'' []
     = Inl (PyExc ''CancelledError'' [] False)"
  by (simp add: dynamic_tool_activity_def dispatch_try_def x_get_tool_handler_def metadata_def)

text \<open>
  C2, amended. For every tool name and arguments: when no handler is found for the name
  (that is, when the name is not in the catalogue), \<^verbatim>\<open>dynamic_tool_activity\<close> returns \<open>{success: False}\<close> with the error text
  \<open>Tool '<name>' not found in registry\<close> and \<open>error_type = "ValueError"\<close>; when the
  handler raises an exception that derives from \<open>Exception\<close>, it returns
  \<open>{success: False}\<close> with the exception's message as \<open>error\<close> and its class name as
  \<open>error_type\<close>; when the handler returns, it wraps the value in \<open>{success: True}\<close>.
  Nothing is propagated unless the handler raises an exception that does not derive from
  \<open>Exception\<close>, and that one is propagated unchanged.
\<close>

theorem dispatch_returns_an_envelope:
  "(x_get_tool_handler t = None) = (t \<notin> set get_available_tools)
   \<and> (x_get_tool_handler t = None \<longrightarrow>
      dynamic_tool_activity call info t a
        = Inr [(''success'', PBool False), (''tool_name'', PStr t),
               (''error'', PStr (''Tool '' @ quoted t @ '' not found in registry'')),
               (''error_type'', PStr ''ValueError''), (''metadata'', metadata info)])
   \<and> (\<forall>h x. x_get_tool_handler t = Some h \<and> call h a = Inl x \<and> exc_is_Exception x \<longrightarrow>
      dynamic_tool_activity call info t a
        = Inr [(''success'', PBool False), (''tool_name'', PStr t),
               (''error'', PStr (exc_str x)), (''error_type'', PStr (exc_class x)),
               (''metadata'', metadata info)])
   \<and> (\<forall>h v. x_get_tool_handler t = Some h \<and> call h a = Inr v \<longrightarrow>
      dynamic_tool_activity call info t a
        = Inr [(''success'', PBool True), (''tool_name'', PStr t), (''result'', v),
               (''metadata'', metadata info)])
   \<and> ((\<forall>h x. call h a = Inl x \<longrightarrow> exc_is_Exception x) \<longrightarrow>
        (\<exists>envelope. dynamic_tool_activity call info t a = Inr envelope))
   \<and> (\<forall>h x. x_get_tool_handler t = Some h \<and> call h a = Inl x \<and> \<not> exc_is_Exception x \<longrightarrow>
        dynamic_tool_activity call info t a = Inl x)"
proof -
  have u: "dynamic_tool_activity call info t a
        = Inr [(''success'', PBool False), (''tool_name'', PStr t),
               (''error'', PStr (''Tool '' @ quoted t @ '' not found in registry'')),
               (''error_type'', PStr ''ValueError''), (''metadata'', metadata info)]"
    if "x_get_tool_handler t = None"
    using that by (simp add: dynamic_tool_activity_def dispatch_try_def)
  have k: "(x_get_tool_handler t = None) = (t \<notin> set get_available_tools)"
    by (simp add: unknown_tool get_available_tools_def catalogue_names)
  have r: "dynamic_tool_activity call info t a
        = Inr [(''success'', PBool False), (''tool_name'', PStr t),
               (''error'', PStr (exc_str x)), (''error_type'', PStr (exc_class x)),
               (''metadata'', metadata info)]"
    if "x_get_tool_handler t = Some h" "call h a = Inl x" "exc_is_Exception x" for h x
    using that by (simp add: dynamic_tool_activity_def dispatch_try_def)
  have s: "dynamic_tool_activity call info t a
        = Inr [(''success'', PBool True), (''tool_name'', PStr t), (''result'', v),
               (''metadata'', metadata info)]"
    if "x_get_tool_handler t = Some h" "call h a = Inr v" for h v
    using that by (simp add: dynamic_tool_activity_def dispatch_try_def)
  have n: "\<exists>envelope. dynamic_tool_activity call info t a = Inr envelope"
    if "\<forall>h x. call h a = Inl x \<longrightarrow> exc_is_Exception x"
    using dispatch_returns [of call a info t] that
    by (cases "dynamic_tool_activity call info t a") auto
  have p: "dynamic_tool_activity call info t a = Inl x"
    if "x_get_tool_handler t = Some h" "call h a = Inl x" "\<not> exc_is_Exception x" for h x
    using that by (simp add: dynamic_tool_activity_def dispatch_try_def)
  from k u r s n p show ?thesis by blast
qed

theorem dispatch_returns_an_envelope_witness:
  "x_get_tool_handler ''no_such_tool'' = None
   \<and> dynamic_tool_activity (\<lambda>h a. Inl (PyExc ''RuntimeError'' ''boom'' True))
       \<lparr>current_attempt_scheduled_time = PInt 0, attempt = PInt 1\<rparr> ''no_such_tool'' []
     = Inr [(''success'', PBool False), (''tool_name'', PStr ''no_such_tool''),
            (''error'', PStr (''Tool '' @ quoted ''no_such_tool'' @ '' not found in registry'')),
            (''error_type'', PStr ''ValueError''),
            (''metadata'', metadata \<lparr>current_attempt_scheduled_time = PInt 0, attempt = PInt 1\<rparr>)]
   \<and> x_get_tool_handler ''process_pdf'' = Some Fn_process_pdf_content
   \<and> dynamic_tool_activity (\<lambda>h a. Inl (PyExc ''RuntimeError'' ''boom'' True))
       \<lparr>current_attempt_scheduled_time = PInt 0, attempt = PInt 1\<rparr> ''process_pdf'' []
     = Inr [(''success'', PBool False), (''tool_name'', PStr ''process_pdf''),
            (''error'', PStr ''boom''), (''error_type'', PStr ''RuntimeError''),
            (''metadata'', metadata \<lparr>current_attempt_scheduled_time = PInt 0, attempt = PInt 1\<rparr>)]"
proof -
  have k: "x_get_tool_handler ''no_such_tool'' = None"
    by (simp add: x_get_tool_handler_def)
  have h: "x_get_tool_handler ''process_pdf'' = Some Fn_process_pdf_content"
    by (simp add: x_get_tool_handler_def)
  from dispatch_returns_an_envelope
         [of "''no_such_tool''" "\<lambda>h a. Inl (PyExc ''RuntimeError'' ''boom'' True)"
             "\<lparr>current_attempt_scheduled_time = PInt 0, attempt = PInt 1\<rparr>" "[]"] k
  have a: "dynamic_tool_activity (\<lambda>h a. Inl (PyExc ''RuntimeError'' ''boom'' True))
       \<lparr>current_attempt_scheduled_time = PInt 0, attempt = PInt 1\<rparr> ''no_such_tool'' []
     = Inr [(''success'', PBool False), (''tool_name'', PStr ''no_such_tool''),
            (''error'', PStr (''Tool '' @ quoted ''no_such_tool'' @ '' not found in registry'')),
            (''error_type'', PStr ''ValueError''),
            (''metadata'', metadata \<lparr>current_attempt_scheduled_time = PInt 0, attempt = PInt 1\<rparr>)]"
    by blast
  from dispatch_returns_an_envelope
         [of "''process_pdf''" "\<lambda>h a. Inl (PyExc ''RuntimeError'' ''boom'' True)"
             "\<lparr>current_attempt_scheduled_time = PInt 0, attempt = PInt 1\<rparr>" "[]"] h
  have b: "dynamic_tool_activity (\<lambda>h a. Inl (PyExc ''RuntimeError'' ''boom'' True))
       \<lparr>current_attempt_scheduled_time = PInt 0, attempt = PInt 1\<rparr> ''process_pdf'' []
     = Inr [(''success'', PBool False), (''tool_name'', PStr ''process_pdf''),
            (''error'', PStr ''boom''), (''error_type'', PStr ''RuntimeError''),
            (''metadata'', metadata \<lparr>current_attempt_scheduled_time = PInt 0, attempt = PInt 1\<rparr>)]"
    by simp
  from k h a b show ?thesis by blast
qed

end
